theory Spec2Isabelle
  imports Main
begin

section \<open>Values exchanged with the hosting API\<close>

text \<open>
  The program is a single Python module, \<^verbatim>\<open>main.py\<close>, that talks to a REST API through
  the \<^verbatim>\<open>requests\<close> library. A decoded response body is a list of JSON objects whose
  fields hold scalars; an object is an association list read with \<open>map_of\<close>, as a
  Python \<^verbatim>\<open>dict\<close> is read with \<^verbatim>\<open>[]\<close> and \<^verbatim>\<open>.get\<close>. Strings are ASCII.
\<close>

datatype jval = JNull | JBool bool | JInt int | JStr string

type_synonym item = "(string \<times> jval) list"

record request =
  req_method :: string
  req_url :: string
  req_headers :: "(string \<times> string) list"
  req_params :: "item option"
  req_json :: "item option"

record response =
  status_code :: int
  body_text :: string
  body_json :: "item list"

subsection \<open>Exceptions\<close>

datatype value_error =
    UnsupportedMethod string
  | InvalidTimeFrame
  | InvalidIntLiteral string
  | YearOutOfRange int
  | TimeDataMismatch string

datatype py_error =
    ValueError value_error
  | OverflowError
  | KeyError string
  | TypeError
  | AttributeError
  | UnboundLocalError

subsection \<open>Python's truth values, \<^verbatim>\<open>str()\<close> and \<^verbatim>\<open>int()\<close>\<close>

fun truthy :: "jval \<Rightarrow> bool" where
  "truthy JNull = False"
| "truthy (JBool b) = b"
| "truthy (JInt i) = (i \<noteq> 0)"
| "truthy (JStr s) = (s \<noteq> [])"

definition py_or :: "jval \<Rightarrow> jval \<Rightarrow> jval" where
  "py_or a b = (if truthy a then a else b)"

definition getitem :: "item \<Rightarrow> string \<Rightarrow> py_error + jval" where
  "getitem d k = (case map_of d k of None \<Rightarrow> Inl (KeyError k) | Some v \<Rightarrow> Inr v)"

definition get :: "item \<Rightarrow> string \<Rightarrow> jval" where
  "get d k = (case map_of d k of None \<Rightarrow> JNull | Some v \<Rightarrow> v)"

definition digit_char :: "nat \<Rightarrow> char" where
  "digit_char n = ''0123456789'' ! n"

fun str_nat :: "nat \<Rightarrow> string" where
  "str_nat n = (if n < 10 then [digit_char n] else str_nat (n div 10) @ [digit_char (n mod 10)])"

declare str_nat.simps [simp del]

definition str_int :: "int \<Rightarrow> string" where
  "str_int i = (if i < 0 then CHR ''-'' # str_nat (nat (- i)) else str_nat (nat i))"

fun py_str :: "jval \<Rightarrow> string" where
  "py_str JNull = ''None''"
| "py_str (JBool b) = (if b then ''True'' else ''False'')"
| "py_str (JInt i) = str_int i"
| "py_str (JStr s) = s"

definition is_space :: "char \<Rightarrow> bool" where
  "is_space c = (c \<in> set [CHR '' '', CHR 0x09, CHR 0x0A, CHR 0x0B, CHR 0x0C, CHR 0x0D,
                          CHR 0x1C, CHR 0x1D, CHR 0x1E, CHR 0x1F])"

definition strip :: "string \<Rightarrow> string" where
  "strip s = rev (dropWhile is_space (rev (dropWhile is_space s)))"

definition is_digit :: "char \<Rightarrow> bool" where
  "is_digit c = (c \<in> set ''0123456789'')"

definition digit_val :: "char \<Rightarrow> int" where
  "digit_val c = int (of_char c) - 48"

text \<open>
  The digits of an integer literal, read after a first digit: single underscores are
  allowed between digits, as in \<^verbatim>\<open>int("1_000")\<close>.
\<close>

fun int_digits :: "int \<Rightarrow> string \<Rightarrow> int option" where
  "int_digits acc [] = Some acc"
| "int_digits acc [c] = (if is_digit c then Some (acc * 10 + digit_val c) else None)"
| "int_digits acc (c # d # cs) =
     (if is_digit c then int_digits (acc * 10 + digit_val c) (d # cs)
      else if c = CHR ''_'' \<and> is_digit d then int_digits (acc * 10 + digit_val d) cs
      else None)"

definition int_magnitude :: "string \<Rightarrow> int option" where
  "int_magnitude s = (case s of [] \<Rightarrow> None
                      | c # cs \<Rightarrow> if is_digit c then int_digits (digit_val c) cs else None)"

text \<open>
  \<^verbatim>\<open>int(s)\<close> on a string, base 10: surrounding whitespace is dropped, one sign is allowed.
  The interpreter's optional cap on the length of a literal is not modelled.
\<close>

definition py_int :: "string \<Rightarrow> py_error + int" where
  "py_int s =
     (let t = strip s;
          r = (case t of
                 [] \<Rightarrow> None
               | c # cs \<Rightarrow>
                   if c = CHR ''-'' then map_option uminus (int_magnitude cs)
                   else if c = CHR ''+'' then int_magnitude cs
                   else int_magnitude t)
      in case r of None \<Rightarrow> Inl (ValueError (InvalidIntLiteral s)) | Some i \<Rightarrow> Inr i)"

definition endswith :: "string \<Rightarrow> string \<Rightarrow> bool" where
  "endswith s suffix = (length suffix \<le> length s \<and> drop (length s - length suffix) s = suffix)"

section \<open>Dates and times of the standard library\<close>

text \<open>
  A naive \<^verbatim>\<open>datetime\<close>, its ordering, \<^verbatim>\<open>datetime - timedelta\<close> and
  \<^verbatim>\<open>datetime - relativedelta(months=n)\<close>, after CPython's \<^verbatim>\<open>datetime\<close> module and
  \<^verbatim>\<open>dateutil.relativedelta\<close>. Years run from 1 to 9999.
\<close>

record datetime =
  year :: int
  month :: int
  day :: int
  hour :: int
  minute :: int
  second :: int
  microsecond :: int

definition dt_key :: "datetime \<Rightarrow> int list" where
  "dt_key t = [year t, month t, day t, hour t, minute t, second t, microsecond t]"

fun lex_less :: "int list \<Rightarrow> int list \<Rightarrow> bool" where
  "lex_less [] [] = False"
| "lex_less [] (b # bs) = True"
| "lex_less (a # as) [] = False"
| "lex_less (a # as) (b # bs) = (a < b \<or> (a = b \<and> lex_less as bs))"

definition dt_less :: "datetime \<Rightarrow> datetime \<Rightarrow> bool" where
  "dt_less a b = lex_less (dt_key a) (dt_key b)"

definition is_leap :: "int \<Rightarrow> bool" where
  "is_leap y = (y mod 4 = 0 \<and> (y mod 100 \<noteq> 0 \<or> y mod 400 = 0))"

definition days_in_month :: "int \<Rightarrow> int \<Rightarrow> int" where
  "days_in_month y m =
     (if m = 2 then (if is_leap y then 29 else 28)
      else if m = 4 \<or> m = 6 \<or> m = 9 \<or> m = 11 then 30 else 31)"

definition days_before_year :: "int \<Rightarrow> int" where
  "days_before_year y = (let p = y - 1 in p * 365 + p div 4 - p div 100 + p div 400)"

definition DAYS_BEFORE_MONTH :: "int list" where
  "DAYS_BEFORE_MONTH = [0, 31, 59, 90, 120, 151, 181, 212, 243, 273, 304, 334]"

definition days_before_month :: "bool \<Rightarrow> int \<Rightarrow> int" where
  "days_before_month leap m =
     DAYS_BEFORE_MONTH ! nat (m - 1) + (if m > 2 \<and> leap then 1 else 0)"

definition ymd2ord :: "int \<Rightarrow> int \<Rightarrow> int \<Rightarrow> int" where
  "ymd2ord y m d = days_before_year y + days_before_month (is_leap y) m + d"

definition ord2ymd :: "int \<Rightarrow> int \<times> int \<times> int" where
  "ord2ymd ordinal =
     (let n = ordinal - 1;
          n400 = n div 146097; r400 = n mod 146097;
          n100 = r400 div 36524; r100 = r400 mod 36524;
          n4 = r100 div 1461; r4 = r100 mod 1461;
          n1 = r4 div 365; r1 = r4 mod 365;
          y = n400 * 400 + 1 + n100 * 100 + n4 * 4 + n1
      in if n1 = 4 \<or> n100 = 4 then (y - 1, 12, 31)
         else
           let leapyear = (n1 = 3 \<and> (n4 \<noteq> 24 \<or> n100 = 3));
               m = (r1 + 50) div 32;
               preceding = days_before_month leapyear m
           in if preceding > r1
              then (y, m - 1, r1 - days_before_month leapyear (m - 1) + 1)
              else (y, m, r1 - preceding + 1))"

definition MAXORDINAL :: int where
  "MAXORDINAL = 3652059"

record timedelta =
  td_days :: int
  td_seconds :: int
  td_microseconds :: int

text \<open>\<^verbatim>\<open>timedelta(days=days, hours=hours)\<close>: normalised, at most 999999999 days either way.\<close>

definition mk_timedelta :: "int \<Rightarrow> int \<Rightarrow> py_error + timedelta" where
  "mk_timedelta days hours =
     (let s = hours * 3600;
          d = days + s div 86400
      in if \<bar>d\<bar> > 999999999 then Inl OverflowError
         else Inr \<lparr>td_days = d, td_seconds = s mod 86400, td_microseconds = 0\<rparr>)"

definition dt_sub_timedelta :: "datetime \<Rightarrow> timedelta \<Rightarrow> py_error + datetime" where
  "dt_sub_timedelta t delta =
     (let us = microsecond t - td_microseconds delta;
          secs = hour t * 3600 + minute t * 60 + second t - td_seconds delta + us div 1000000;
          ordinal = ymd2ord (year t) (month t) (day t) - td_days delta + secs div 86400;
          sod = secs mod 86400
      in if 1 \<le> ordinal \<and> ordinal \<le> MAXORDINAL
         then (case ord2ymd ordinal of (y, m, d) \<Rightarrow>
                 Inr \<lparr>year = y, month = m, day = d, hour = sod div 3600,
                      minute = (sod mod 3600) div 60, second = sod mod 60,
                      microsecond = us mod 1000000\<rparr>)
         else Inl OverflowError)"

text \<open>
  \<^verbatim>\<open>now - relativedelta(months=months)\<close>: the constructor folds whole dozens of months into
  years, the subtraction adds the negated delta, and the day is clipped to the length of
  the month reached.
\<close>

definition relativedelta_fix :: "int \<Rightarrow> int \<times> int" where
  "relativedelta_fix months =
     (if \<bar>months\<bar> > 11
      then (sgn months * (\<bar>months\<bar> div 12), sgn months * (\<bar>months\<bar> mod 12))
      else (0, months))"

definition dt_sub_relativedelta :: "datetime \<Rightarrow> int \<Rightarrow> py_error + datetime" where
  "dt_sub_relativedelta t months =
     (case relativedelta_fix months of (years, ms) \<Rightarrow>
        let y0 = year t + (- years);
            m0 = month t + (- ms);
            y = (if m0 > 12 then y0 + 1 else if m0 < 1 then y0 - 1 else y0);
            m = (if m0 > 12 then m0 - 12 else if m0 < 1 then m0 + 12 else m0)
        in if y < 1 \<or> y > 9999 then Inl (ValueError (YearOutOfRange y))
           else Inr (t\<lparr>year := y, month := m, day := min (days_in_month y m) (day t)\<rparr>))"

section \<open>What the program gets from outside\<close>

text \<open>
  Every call of the transport is recorded with its response, every \<^verbatim>\<open>time.sleep\<close> and
  every \<^verbatim>\<open>print\<close> too, in the order they happen. The remote side answers a request from
  all that has happened so far. The clock is read once per run;
  \<^verbatim>\<open>datetime.strptime(_, "%Y-%m-%dT%H:%M:%SZ")\<close> is a parameter.
\<close>

datatype msg =
    RateLimitReached
  | AttemptFailed int int string
  | DeletingReleasesBefore datetime
  | FetchingReleases int
  | FailedToFetchReleases int string
  | NoMoreReleases
  | DeletedRelease jval datetime
  | ReachedLimitOfDeletions "int option"
  | FailedToDeleteRelease jval int
  | SkippingRelease jval datetime datetime
  | NoMorePagesOfReleases
  | TotalDeletedReleases int
  | ErrorFetchingTags string
  | DeletedTag jval
  | ReachedLimitOfTags "int option"
  | FailedToDeleteTag jval string
  | FinishedDeletingTags int
  | ErrorFetchingBranches string
  | DeletedBranch jval
  | ReachedLimitOfBranches "int option"
  | FailedToDeleteBranch jval string
  | FinishedDeletingBranches int
  | ErrorFetchingIssues string
  | ClosedIssue jval
  | ReachedLimitOfIssues "int option"
  | FailedToCloseIssue jval string
  | FinishedClosingIssues int
  | ChangedVisibility string string
  | FailedToChangeVisibility string string
  | ErrorFetchingRepositories string
  | ChangingVisibilityFor jval
  | ChangedRepositoryName string string
  | FailedToChangeRepositoryName string
  | SpecifyValidType
  | RepoNeededForChangeName
  | VisibilityNeededForAllRepos
  | VisibilityOrChangeNameNeeded
  | RepoOrAllReposNeeded

datatype event = Call request response | Sleep nat | Print msg

record world =
  transport :: "event list \<Rightarrow> request \<Rightarrow> response"
  utcnow :: datetime
  strptime :: "string \<Rightarrow> py_error + datetime"

definition send :: "world \<Rightarrow> request \<Rightarrow> event list \<Rightarrow> response \<times> event list" where
  "send W rq log = (let rs = transport W log rq in (rs, log @ [Call rq rs]))"

section \<open>Constants\<close>

definition GITHUB_API_URL :: string where
  "GITHUB_API_URL = ''https://api.github.com''"

definition EXCLUDED_BRANCHES :: "string list" where
  "EXCLUDED_BRANCHES = [''main'', ''master'']"

definition MAX_RETRIES :: int where
  "MAX_RETRIES = 3"

definition RETRY_DELAY :: nat where
  "RETRY_DELAY = 2"

section \<open>The request executor\<close>

text \<open>
  \<^verbatim>\<open>make_request_with_retries\<close>: the body of the \<^verbatim>\<open>for attempt in range(retries)\<close> loop
  runs once per element of the range; \<open>prev\<close> is the variable \<^verbatim>\<open>response\<close>, unbound
  until the first call.
\<close>

definition api_request ::
  "string \<Rightarrow> string \<Rightarrow> (string \<times> string) list \<Rightarrow> item option \<Rightarrow> request" where
  "api_request m u hs js =
     \<lparr>req_method = m, req_url = u, req_headers = hs, req_params = None, req_json = js\<rparr>"

fun attempts ::
  "world \<Rightarrow> string \<Rightarrow> string \<Rightarrow> (string \<times> string) list \<Rightarrow> item option \<Rightarrow> int \<Rightarrow>
   nat list \<Rightarrow> response option \<Rightarrow> event list \<Rightarrow> (py_error + response) \<times> event list" where
  "attempts W u m hs js retries [] prev log =
     ((case prev of None \<Rightarrow> Inl UnboundLocalError | Some r \<Rightarrow> Inr r), log)"
| "attempts W u m hs js retries (attempt # rest) prev log =
     (if m = ''GET'' \<or> m = ''DELETE'' \<or> m = ''PATCH'' then
        (case send W (api_request m u hs js) log of
           (rs, log1) \<Rightarrow>
             if status_code rs = 403 then
               attempts W u m hs js retries rest (Some rs)
                 (log1 @ [Print RateLimitReached, Sleep 60])
             else if status_code rs = 200 \<or> status_code rs = 204 then (Inr rs, log1)
             else
               attempts W u m hs js retries rest (Some rs)
                 (log1 @ [Print (AttemptFailed (int attempt + 1) retries (body_text rs)),
                          Sleep RETRY_DELAY]))
      else (Inl (ValueError (UnsupportedMethod m)), log))"

definition make_request_with_retries ::
  "world \<Rightarrow> string \<Rightarrow> string \<Rightarrow> (string \<times> string) list \<Rightarrow> item option \<Rightarrow> int \<Rightarrow>
   event list \<Rightarrow> (py_error + response) \<times> event list" where
  "make_request_with_retries W u m hs js retries log =
     attempts W u m hs js retries [0 ..< nat retries] None log"

section \<open>The cutoff calculator\<close>

definition calculate_cutoff_date :: "world \<Rightarrow> string option \<Rightarrow> py_error + datetime" where
  "calculate_cutoff_date W time_frame_gt =
     (let now = utcnow W in
      case time_frame_gt of
        None \<Rightarrow> Inl AttributeError
      | Some s \<Rightarrow>
          if endswith s ''m'' then
            (case py_int (butlast s) of
               Inl e \<Rightarrow> Inl e
             | Inr months \<Rightarrow> dt_sub_relativedelta now months)
          else if endswith s ''d'' then
            (case py_int (butlast s) of
               Inl e \<Rightarrow> Inl e
             | Inr days \<Rightarrow>
                 (case mk_timedelta days 0 of Inl e \<Rightarrow> Inl e
                  | Inr delta \<Rightarrow> dt_sub_timedelta now delta))
          else if endswith s ''h'' then
            (case py_int (butlast s) of
               Inl e \<Rightarrow> Inl e
             | Inr hours \<Rightarrow>
                 (case mk_timedelta 0 hours of Inl e \<Rightarrow> Inl e
                  | Inr delta \<Rightarrow> dt_sub_timedelta now delta))
          else Inl (ValueError InvalidTimeFrame))"

section \<open>Cleanup operations\<close>

text \<open>
  A \<^verbatim>\<open>for\<close> loop over a page ends by falling through (\<open>Next\<close>), by the \<^verbatim>\<open>return\<close>
  at the limit, or by an exception. A \<^verbatim>\<open>while True\<close> loop takes fuel, one unit per
  listing request, since nothing bounds the number of pages the remote side returns.
\<close>

datatype flow = Next | Return | Raise py_error

datatype outcome = Returned | Raised py_error | OutOfFuel

text \<open>\<^verbatim>\<open>limit and count >= limit\<close>\<close>

definition limit_reached :: "int option \<Rightarrow> int \<Rightarrow> bool" where
  "limit_reached limit count = (case limit of None \<Rightarrow> False | Some l \<Rightarrow> l \<noteq> 0 \<and> count \<ge> l)"

definition bearer :: "string \<Rightarrow> (string \<times> string) list" where
  "bearer token = [(''Authorization'', ''Bearer '' @ token)]"

definition page_params :: "int \<Rightarrow> item" where
  "page_params page = [(''per_page'', JInt 50), (''page'', JInt page)]"

subsection \<open>Releases\<close>

definition release_name_of :: "item \<Rightarrow> jval" where
  "release_name_of release =
     py_or (py_or (get release ''name'') (get release ''tag_name'')) (JStr ''Unnamed Release'')"

definition strptime_of :: "world \<Rightarrow> jval \<Rightarrow> py_error + datetime" where
  "strptime_of W v = (case v of JStr s \<Rightarrow> strptime W s | _ \<Rightarrow> Inl TypeError)"

definition release_delete :: "string \<Rightarrow> (string \<times> string) list \<Rightarrow> jval \<Rightarrow> request" where
  "release_delete u hs release_id =
     \<lparr>req_method = ''DELETE'', req_url = u @ ''/'' @ py_str release_id, req_headers = hs,
      req_params = None, req_json = None\<rparr>"

fun releases_for ::
  "world \<Rightarrow> string \<Rightarrow> (string \<times> string) list \<Rightarrow> int option \<Rightarrow> datetime \<Rightarrow> item list \<Rightarrow>
   int \<Rightarrow> event list \<Rightarrow> flow \<times> int \<times> event list" where
  "releases_for W u hs limit cutoff_date [] deleted_count log = (Next, deleted_count, log)"
| "releases_for W u hs limit cutoff_date (release # rest) deleted_count log =
     (case getitem release ''created_at'' of
        Inl e \<Rightarrow> (Raise e, deleted_count, log)
      | Inr created_at \<Rightarrow>
          (case strptime_of W created_at of
             Inl e \<Rightarrow> (Raise e, deleted_count, log)
           | Inr release_date \<Rightarrow>
               if dt_less release_date cutoff_date then
                 (case getitem release ''id'' of
                    Inl e \<Rightarrow> (Raise e, deleted_count, log)
                  | Inr release_id \<Rightarrow>
                      (case send W (release_delete u hs release_id) log of
                         (delete_response, log1) \<Rightarrow>
                           if status_code delete_response = 204 then
                             if limit_reached limit (deleted_count + 1) then
                               (Return, deleted_count + 1,
                                log1 @ [Print (DeletedRelease (release_name_of release) release_date),
                                        Print (ReachedLimitOfDeletions limit)])
                             else
                               releases_for W u hs limit cutoff_date rest (deleted_count + 1)
                                 (log1 @ [Print (DeletedRelease (release_name_of release) release_date)])
                           else
                             releases_for W u hs limit cutoff_date rest deleted_count
                               (log1 @ [Print (FailedToDeleteRelease (release_name_of release)
                                                 (status_code delete_response))])))
               else
                 releases_for W u hs limit cutoff_date rest deleted_count
                   (log @ [Print (SkippingRelease (release_name_of release) release_date
                                    cutoff_date)])))"

definition releases_list :: "string \<Rightarrow> (string \<times> string) list \<Rightarrow> int \<Rightarrow> request" where
  "releases_list u hs page =
     \<lparr>req_method = ''GET'', req_url = u, req_headers = hs,
      req_params = Some (page_params page), req_json = None\<rparr>"

fun releases_while ::
  "nat \<Rightarrow> world \<Rightarrow> string \<Rightarrow> (string \<times> string) list \<Rightarrow> int option \<Rightarrow> datetime \<Rightarrow>
   int \<Rightarrow> int \<Rightarrow> event list \<Rightarrow> outcome \<times> event list" where
  "releases_while 0 W u hs limit cutoff_date page deleted_count log = (OutOfFuel, log)"
| "releases_while (Suc fuel) W u hs limit cutoff_date page deleted_count log =
     (case send W (releases_list u hs page) (log @ [Print (FetchingReleases page)]) of
        (response, log1) \<Rightarrow>
          if status_code response \<noteq> 200 then
            (Returned,
             log1 @ [Print (FailedToFetchReleases (status_code response) (body_text response)),
                     Print (TotalDeletedReleases deleted_count)])
          else if body_json response = [] then
            (Returned, log1 @ [Print NoMoreReleases, Print (TotalDeletedReleases deleted_count)])
          else
            (case releases_for W u hs limit cutoff_date (body_json response) deleted_count log1 of
               (Raise e, c, log2) \<Rightarrow> (Raised e, log2)
             | (Return, c, log2) \<Rightarrow> (Returned, log2)
             | (Next, c, log2) \<Rightarrow>
                 if int (length (body_json response)) < 50 then
                   (Returned, log2 @ [Print NoMorePagesOfReleases, Print (TotalDeletedReleases c)])
                 else releases_while fuel W u hs limit cutoff_date (page + 1) c log2))"

definition releases_url :: "string \<Rightarrow> string \<Rightarrow> string" where
  "releases_url org repo = GITHUB_API_URL @ ''/repos/'' @ org @ ''/'' @ repo @ ''/releases''"

definition delete_releases ::
  "nat \<Rightarrow> world \<Rightarrow> string \<Rightarrow> string \<Rightarrow> string \<Rightarrow> int option \<Rightarrow> string option \<Rightarrow>
   event list \<Rightarrow> outcome \<times> event list" where
  "delete_releases fuel W org repo token limit time_frame_gt log =
     (case calculate_cutoff_date W time_frame_gt of
        Inl e \<Rightarrow> (Raised e, log)
      | Inr cutoff_date \<Rightarrow>
          releases_while fuel W (releases_url org repo) (bearer token) limit cutoff_date 1 0
            (log @ [Print (DeletingReleasesBefore cutoff_date)]))"

subsection \<open>Tags\<close>

definition tags_url :: "string \<Rightarrow> string \<Rightarrow> string" where
  "tags_url org repo = GITHUB_API_URL @ ''/repos/'' @ org @ ''/'' @ repo @ ''/git/refs/tags''"

definition tag_delete_url :: "string \<Rightarrow> string \<Rightarrow> jval \<Rightarrow> string" where
  "tag_delete_url org repo ref =
     GITHUB_API_URL @ ''/repos/'' @ org @ ''/'' @ repo @ ''/git/'' @ py_str ref"

fun tags_for ::
  "world \<Rightarrow> string \<Rightarrow> string \<Rightarrow> (string \<times> string) list \<Rightarrow> int option \<Rightarrow> item list \<Rightarrow>
   int \<Rightarrow> event list \<Rightarrow> flow \<times> int \<times> event list" where
  "tags_for W org repo hs limit [] deleted_count log = (Next, deleted_count, log)"
| "tags_for W org repo hs limit (tag # rest) deleted_count log =
     (case getitem tag ''ref'' of
        Inl e \<Rightarrow> (Raise e, deleted_count, log)
      | Inr ref \<Rightarrow>
          (case make_request_with_retries W (tag_delete_url org repo ref) ''DELETE'' hs None
                  MAX_RETRIES log of
             (Inl e, log1) \<Rightarrow> (Raise e, deleted_count, log1)
           | (Inr delete_response, log1) \<Rightarrow>
               if status_code delete_response = 204 then
                 if limit_reached limit (deleted_count + 1) then
                   (Return, deleted_count + 1,
                    log1 @ [Print (DeletedTag ref), Print (ReachedLimitOfTags limit)])
                 else tags_for W org repo hs limit rest (deleted_count + 1)
                        (log1 @ [Print (DeletedTag ref)])
               else tags_for W org repo hs limit rest deleted_count
                      (log1 @ [Print (FailedToDeleteTag ref (body_text delete_response))])))"

fun tags_while ::
  "nat \<Rightarrow> world \<Rightarrow> string \<Rightarrow> string \<Rightarrow> (string \<times> string) list \<Rightarrow> int option \<Rightarrow>
   int \<Rightarrow> int \<Rightarrow> event list \<Rightarrow> outcome \<times> event list" where
  "tags_while 0 W org repo hs limit page deleted_count log = (OutOfFuel, log)"
| "tags_while (Suc fuel) W org repo hs limit page deleted_count log =
     (case make_request_with_retries W (tags_url org repo) ''GET'' hs (Some (page_params page))
             MAX_RETRIES log of
        (Inl e, log1) \<Rightarrow> (Raised e, log1)
      | (Inr response, log1) \<Rightarrow>
          if status_code response \<noteq> 200 then
            (Returned, log1 @ [Print (ErrorFetchingTags (body_text response))])
          else if body_json response = [] then
            (Returned, log1 @ [Print (FinishedDeletingTags deleted_count)])
          else
            (case tags_for W org repo hs limit (body_json response) deleted_count log1 of
               (Raise e, c, log2) \<Rightarrow> (Raised e, log2)
             | (Return, c, log2) \<Rightarrow> (Returned, log2)
             | (Next, c, log2) \<Rightarrow> tags_while fuel W org repo hs limit (page + 1) c log2))"

definition delete_tags ::
  "nat \<Rightarrow> world \<Rightarrow> string \<Rightarrow> string \<Rightarrow> string \<Rightarrow> int option \<Rightarrow> event list \<Rightarrow>
   outcome \<times> event list" where
  "delete_tags fuel W org repo token limit log =
     tags_while fuel W org repo (bearer token) limit 1 0 log"

subsection \<open>Branches\<close>

definition branches_url :: "string \<Rightarrow> string \<Rightarrow> string" where
  "branches_url org repo = GITHUB_API_URL @ ''/repos/'' @ org @ ''/'' @ repo @ ''/branches''"

definition branch_delete_url :: "string \<Rightarrow> string \<Rightarrow> jval \<Rightarrow> string" where
  "branch_delete_url org repo branch_name =
     GITHUB_API_URL @ ''/repos/'' @ org @ ''/'' @ repo @ ''/git/refs/heads/'' @ py_str branch_name"

text \<open>\<^verbatim>\<open>branch_name not in EXCLUDED_BRANCHES\<close>: only a string equals a string.\<close>

definition excluded :: "jval \<Rightarrow> bool" where
  "excluded branch_name = (branch_name \<in> set (map JStr EXCLUDED_BRANCHES))"

fun branches_for ::
  "world \<Rightarrow> string \<Rightarrow> string \<Rightarrow> (string \<times> string) list \<Rightarrow> int option \<Rightarrow> item list \<Rightarrow>
   int \<Rightarrow> event list \<Rightarrow> flow \<times> int \<times> event list" where
  "branches_for W org repo hs limit [] deleted_count log = (Next, deleted_count, log)"
| "branches_for W org repo hs limit (branch # rest) deleted_count log =
     (case getitem branch ''name'' of
        Inl e \<Rightarrow> (Raise e, deleted_count, log)
      | Inr branch_name \<Rightarrow>
          if \<not> excluded branch_name then
            (case make_request_with_retries W (branch_delete_url org repo branch_name) ''DELETE''
                    hs None MAX_RETRIES log of
               (Inl e, log1) \<Rightarrow> (Raise e, deleted_count, log1)
             | (Inr delete_response, log1) \<Rightarrow>
                 if status_code delete_response = 204 then
                   if limit_reached limit (deleted_count + 1) then
                     (Return, deleted_count + 1,
                      log1 @ [Print (DeletedBranch branch_name),
                              Print (ReachedLimitOfBranches limit)])
                   else branches_for W org repo hs limit rest (deleted_count + 1)
                          (log1 @ [Print (DeletedBranch branch_name)])
                 else branches_for W org repo hs limit rest deleted_count
                        (log1 @ [Print (FailedToDeleteBranch branch_name
                                          (body_text delete_response))]))
          else branches_for W org repo hs limit rest deleted_count log)"

fun branches_while ::
  "nat \<Rightarrow> world \<Rightarrow> string \<Rightarrow> string \<Rightarrow> (string \<times> string) list \<Rightarrow> int option \<Rightarrow>
   int \<Rightarrow> int \<Rightarrow> event list \<Rightarrow> outcome \<times> event list" where
  "branches_while 0 W org repo hs limit page deleted_count log = (OutOfFuel, log)"
| "branches_while (Suc fuel) W org repo hs limit page deleted_count log =
     (case make_request_with_retries W (branches_url org repo) ''GET'' hs
             (Some (page_params page)) MAX_RETRIES log of
        (Inl e, log1) \<Rightarrow> (Raised e, log1)
      | (Inr response, log1) \<Rightarrow>
          if status_code response \<noteq> 200 then
            (Returned, log1 @ [Print (ErrorFetchingBranches (body_text response))])
          else if body_json response = [] then
            (Returned, log1 @ [Print (FinishedDeletingBranches deleted_count)])
          else
            (case branches_for W org repo hs limit (body_json response) deleted_count log1 of
               (Raise e, c, log2) \<Rightarrow> (Raised e, log2)
             | (Return, c, log2) \<Rightarrow> (Returned, log2)
             | (Next, c, log2) \<Rightarrow> branches_while fuel W org repo hs limit (page + 1) c log2))"

definition delete_branches ::
  "nat \<Rightarrow> world \<Rightarrow> string \<Rightarrow> string \<Rightarrow> string \<Rightarrow> int option \<Rightarrow> event list \<Rightarrow>
   outcome \<times> event list" where
  "delete_branches fuel W org repo token limit log =
     branches_while fuel W org repo (bearer token) limit 1 0 log"

subsection \<open>Issues\<close>

definition issues_url :: "string \<Rightarrow> string \<Rightarrow> string" where
  "issues_url org repo = GITHUB_API_URL @ ''/repos/'' @ org @ ''/'' @ repo @ ''/issues''"

text \<open>
  The dictionary \<^verbatim>\<open>params\<close> of \<^verbatim>\<open>close_issues\<close> holds the state filter, the page size
  and the page number; the page number is the loop variable \<open>page\<close> below.
\<close>

definition issue_params :: "int \<Rightarrow> item" where
  "issue_params page = [(''state'', JStr ''open''), (''per_page'', JInt 50), (''page'', JInt page)]"

fun issues_for ::
  "world \<Rightarrow> string \<Rightarrow> (string \<times> string) list \<Rightarrow> int option \<Rightarrow> item list \<Rightarrow>
   int \<Rightarrow> event list \<Rightarrow> flow \<times> int \<times> event list" where
  "issues_for W u hs limit [] closed_count log = (Next, closed_count, log)"
| "issues_for W u hs limit (issue # rest) closed_count log =
     (case getitem issue ''number'' of
        Inl e \<Rightarrow> (Raise e, closed_count, log)
      | Inr issue_number \<Rightarrow>
          (case make_request_with_retries W (u @ ''/'' @ py_str issue_number) ''PATCH'' hs
                  (Some [(''state'', JStr ''closed'')]) MAX_RETRIES log of
             (Inl e, log1) \<Rightarrow> (Raise e, closed_count, log1)
           | (Inr patch_response, log1) \<Rightarrow>
               (case getitem issue ''title'' of
                  Inl e \<Rightarrow> (Raise e, closed_count, log1)
                | Inr title \<Rightarrow>
                    if status_code patch_response = 200 then
                      if limit_reached limit (closed_count + 1) then
                        (Return, closed_count + 1,
                         log1 @ [Print (ClosedIssue title), Print (ReachedLimitOfIssues limit)])
                      else issues_for W u hs limit rest (closed_count + 1)
                             (log1 @ [Print (ClosedIssue title)])
                    else issues_for W u hs limit rest closed_count
                           (log1 @ [Print (FailedToCloseIssue title (body_text patch_response))]))))"

fun issues_while ::
  "nat \<Rightarrow> world \<Rightarrow> string \<Rightarrow> (string \<times> string) list \<Rightarrow> int option \<Rightarrow>
   int \<Rightarrow> int \<Rightarrow> event list \<Rightarrow> outcome \<times> event list" where
  "issues_while 0 W u hs limit page closed_count log = (OutOfFuel, log)"
| "issues_while (Suc fuel) W u hs limit page closed_count log =
     (case make_request_with_retries W u ''GET'' hs None MAX_RETRIES log of
        (Inl e, log1) \<Rightarrow> (Raised e, log1)
      | (Inr response, log1) \<Rightarrow>
          if status_code response \<noteq> 200 then
            (Returned, log1 @ [Print (ErrorFetchingIssues (body_text response))])
          else if body_json response = [] then
            (Returned, log1 @ [Print (FinishedClosingIssues closed_count)])
          else
            (case issues_for W u hs limit (body_json response) closed_count log1 of
               (Raise e, c, log2) \<Rightarrow> (Raised e, log2)
             | (Return, c, log2) \<Rightarrow> (Returned, log2)
             | (Next, c, log2) \<Rightarrow> issues_while fuel W u hs limit (page + 1) c log2))"

definition close_issues ::
  "nat \<Rightarrow> world \<Rightarrow> string \<Rightarrow> string \<Rightarrow> string \<Rightarrow> int option \<Rightarrow> event list \<Rightarrow>
   outcome \<times> event list" where
  "close_issues fuel W org repo token limit log =
     issues_while fuel W (issues_url org repo) (bearer token) limit 1 0 log"

section \<open>Change operations\<close>

definition repo_url :: "string \<Rightarrow> string \<Rightarrow> string" where
  "repo_url org repo = GITHUB_API_URL @ ''/repos/'' @ org @ ''/'' @ repo"

definition change_visibility_single ::
  "world \<Rightarrow> string \<Rightarrow> string \<Rightarrow> string \<Rightarrow> string \<Rightarrow> event list \<Rightarrow> outcome \<times> event list" where
  "change_visibility_single W org repo visibility token log =
     (case make_request_with_retries W (repo_url org repo) ''PATCH'' (bearer token)
             (Some [(''visibility'', JStr visibility)]) MAX_RETRIES log of
        (Inl e, log1) \<Rightarrow> (Raised e, log1)
      | (Inr response, log1) \<Rightarrow>
          if status_code response = 200 then
            (Returned, log1 @ [Print (ChangedVisibility repo visibility)])
          else (Returned, log1 @ [Print (FailedToChangeVisibility repo (body_text response))]))"

fun repos_for ::
  "world \<Rightarrow> string \<Rightarrow> string \<Rightarrow> string \<Rightarrow> item list \<Rightarrow> event list \<Rightarrow> outcome \<times> event list" where
  "repos_for W org visibility token [] log = (Returned, log)"
| "repos_for W org visibility token (repo # rest) log =
     (case getitem repo ''name'' of
        Inl e \<Rightarrow> (Raised e, log)
      | Inr repo_name \<Rightarrow>
          (case change_visibility_single W org (py_str repo_name) visibility token
                  (log @ [Print (ChangingVisibilityFor repo_name)]) of
             (Returned, log1) \<Rightarrow> repos_for W org visibility token rest log1
           | (r, log1) \<Rightarrow> (r, log1)))"

definition change_visibility_all ::
  "world \<Rightarrow> string \<Rightarrow> string \<Rightarrow> string \<Rightarrow> event list \<Rightarrow> outcome \<times> event list" where
  "change_visibility_all W org visibility token log =
     (case make_request_with_retries W (GITHUB_API_URL @ ''/orgs/'' @ org @ ''/repos'') ''GET''
             (bearer token) None MAX_RETRIES log of
        (Inl e, log1) \<Rightarrow> (Raised e, log1)
      | (Inr response, log1) \<Rightarrow>
          if status_code response \<noteq> 200 then
            (Returned, log1 @ [Print (ErrorFetchingRepositories (body_text response))])
          else repos_for W org visibility token (body_json response) log1)"

definition change_repository_name ::
  "world \<Rightarrow> string \<Rightarrow> string \<Rightarrow> string \<Rightarrow> string \<Rightarrow> event list \<Rightarrow> outcome \<times> event list" where
  "change_repository_name W org repo new_name token log =
     (case make_request_with_retries W (repo_url org repo) ''PATCH'' (bearer token)
             (Some [(''name'', JStr new_name)]) MAX_RETRIES log of
        (Inl e, log1) \<Rightarrow> (Raised e, log1)
      | (Inr response, log1) \<Rightarrow>
          if status_code response = 200 then
            (Returned, log1 @ [Print (ChangedRepositoryName repo new_name)])
          else (Returned, log1 @ [Print (FailedToChangeRepositoryName (body_text response))]))"

section \<open>The command-line front end\<close>

text \<open>
  \<^verbatim>\<open>main\<close> after \<^verbatim>\<open>parser.parse_args()\<close>: the parsed arguments of one of the two
  subcommands. An option that was not given is \<open>None\<close>.
\<close>

record cleanup_args =
  c_org :: string
  c_repo :: string
  c_type :: "string option"
  c_time_frame_gt :: "string option"
  c_limit :: "int option"
  c_token :: string

record change_args =
  g_org :: string
  g_repo :: "string option"
  g_all_repos :: bool
  g_visibility :: "string option"
  g_change_name :: "string option"
  g_token :: string

datatype args = Cleanup cleanup_args | Change change_args

text \<open>An option used as a condition: \<^verbatim>\<open>None\<close> and the empty string are false.\<close>

definition if_truthy :: "string option \<Rightarrow> string option" where
  "if_truthy x = (case x of None \<Rightarrow> None | Some s \<Rightarrow> if s = [] then None else Some s)"

definition main :: "nat \<Rightarrow> world \<Rightarrow> args \<Rightarrow> event list \<Rightarrow> outcome \<times> event list" where
  "main fuel W args log =
     (case args of
        Cleanup a \<Rightarrow>
          if c_type a = Some ''releases'' then
            delete_releases fuel W (c_org a) (c_repo a) (c_token a) (c_limit a)
              (c_time_frame_gt a) log
          else if c_type a = Some ''tags'' then
            delete_tags fuel W (c_org a) (c_repo a) (c_token a) (c_limit a) log
          else if c_type a = Some ''branches'' then
            delete_branches fuel W (c_org a) (c_repo a) (c_token a) (c_limit a) log
          else if c_type a = Some ''issues'' then
            close_issues fuel W (c_org a) (c_repo a) (c_token a) (c_limit a) log
          else (Returned, log @ [Print SpecifyValidType])
      | Change a \<Rightarrow>
          (case if_truthy (g_change_name a) of
             Some new_name \<Rightarrow>
               (case if_truthy (g_repo a) of
                  None \<Rightarrow> (Returned, log @ [Print RepoNeededForChangeName])
                | Some repo \<Rightarrow> change_repository_name W (g_org a) repo new_name (g_token a) log)
           | None \<Rightarrow>
               if g_all_repos a then
                 (case if_truthy (g_visibility a) of
                    Some visibility \<Rightarrow> change_visibility_all W (g_org a) visibility (g_token a) log
                  | None \<Rightarrow> (Returned, log @ [Print VisibilityNeededForAllRepos]))
               else
                 (case if_truthy (g_repo a) of
                    Some repo \<Rightarrow>
                      (case if_truthy (g_visibility a) of
                         Some visibility \<Rightarrow>
                           change_visibility_single W (g_org a) repo visibility (g_token a) log
                       | None \<Rightarrow> (Returned, log @ [Print VisibilityOrChangeNameNeeded]))
                  | None \<Rightarrow> (Returned, log @ [Print RepoOrAllReposNeeded]))))"

text \<open>
  The interpreter's exit status: 0 when \<^verbatim>\<open>main\<close> returns, 1 when an exception leaves
  it uncaught; none while the run has not ended.
\<close>

definition exit_status :: "outcome \<Rightarrow> int option" where
  "exit_status r = (case r of Returned \<Rightarrow> Some 0 | Raised e \<Rightarrow> Some 1 | OutOfFuel \<Rightarrow> None)"

section \<open>Reading a run\<close>

definition calls :: "event list \<Rightarrow> (request \<times> response) list" where
  "calls log = concat (map (\<lambda>e. case e of Call rq rs \<Rightarrow> [(rq, rs)] | _ \<Rightarrow> []) log)"

definition sleeps :: "event list \<Rightarrow> nat list" where
  "sleeps log = concat (map (\<lambda>e. case e of Sleep n \<Rightarrow> [n] | _ \<Rightarrow> []) log)"

definition last_response :: "event list \<Rightarrow> response option" where
  "last_response log = (case rev (calls log) of [] \<Rightarrow> None | (rq, rs) # _ \<Rightarrow> Some rs)"

text \<open>A scripted remote side for the examples: the k-th call gets the k-th response.\<close>

definition blank :: response where
  "blank = \<lparr>status_code = 500, body_text = ''no more responses'', body_json = []\<rparr>"

definition reply :: "int \<Rightarrow> item list \<Rightarrow> response" where
  "reply code items = \<lparr>status_code = code, body_text = [], body_json = items\<rparr>"

definition scripted :: "response list \<Rightarrow> event list \<Rightarrow> request \<Rightarrow> response" where
  "scripted script log rq =
     (let k = length (calls log) in if k < length script then script ! k else blank)"

definition always :: "response \<Rightarrow> event list \<Rightarrow> request \<Rightarrow> response" where
  "always rs log rq = rs"

text \<open>
  A parser for the examples: timestamps of the fixed-width form
  \<^verbatim>\<open>YYYY-MM-DDTHH:MM:SSZ\<close>, read field by field without range checks.
\<close>

definition field :: "string \<Rightarrow> nat \<Rightarrow> nat \<Rightarrow> int option" where
  "field s start n =
     (let f = take n (drop start s)
      in if length f = n \<and> list_all is_digit f
         then Some (foldl (\<lambda>acc c. acc * 10 + digit_val c) 0 f) else None)"

definition iso_strptime :: "string \<Rightarrow> py_error + datetime" where
  "iso_strptime s =
     (if length s = 20 \<and> s ! 4 = CHR ''-'' \<and> s ! 7 = CHR ''-'' \<and> s ! 10 = CHR ''T''
         \<and> s ! 13 = CHR '':'' \<and> s ! 16 = CHR '':'' \<and> s ! 19 = CHR ''Z''
      then (case (field s 0 4, field s 5 2, field s 8 2, field s 11 2, field s 14 2,
                  field s 17 2) of
              (Some y, Some m, Some d, Some h, Some mi, Some sec) \<Rightarrow>
                Inr \<lparr>year = y, month = m, day = d, hour = h, minute = mi, second = sec,
                     microsecond = 0\<rparr>
            | _ \<Rightarrow> Inl (ValueError (TimeDataMismatch s)))
      else Inl (ValueError (TimeDataMismatch s)))"

definition now0 :: datetime where
  "now0 = \<lparr>year = 2024, month = 3, day = 31, hour = 12, minute = 0, second = 0,
           microsecond = 0\<rparr>"

definition example_world :: "(event list \<Rightarrow> request \<Rightarrow> response) \<Rightarrow> world" where
  "example_world t = \<lparr>transport = t, utcnow = now0, strptime = iso_strptime\<rparr>"

text \<open>The URLs of the DELETE requests of a run, in order.\<close>

definition deletes :: "event list \<Rightarrow> string list" where
  "deletes log = map (\<lambda>(rq, rs). req_url rq) (filter (\<lambda>(rq, rs). req_method rq = ''DELETE'') (calls log))"

text \<open>A repository with three branches, for the examples: one listing, one deletion, an empty page.\<close>

definition branches_world :: world where
  "branches_world = example_world (scripted
     [reply 200 [[(''name'', JStr ''main'')], [(''name'', JStr ''dev'')],
                 [(''name'', JStr ''master'')]],
      reply 204 [], reply 200 []])"

text \<open>A repository with one open issue, for the examples: a listing, the patch, a second listing.\<close>

definition issues_world :: world where
  "issues_world = example_world (scripted
     [reply 200 [[(''number'', JInt 7), (''title'', JStr ''bug'')]], reply 200 [],
      reply 200 []])"

text \<open>One release from 2023 and one tag, for the examples.\<close>

definition old_release :: item where
  "old_release = [(''created_at'', JStr ''2023-01-01T00:00:00Z''), (''id'', JInt 7),
                  (''name'', JStr ''v1'')]"

definition one_tag :: item where
  "one_tag = [(''ref'', JStr ''refs/tags/v1'')]"

text \<open>Short pages, for the examples: one item, then whatever the operation asks next.\<close>

definition short_releases_world :: world where
  "short_releases_world = example_world (scripted [reply 200 [old_release], reply 204 []])"

definition short_tags_world :: world where
  "short_tags_world = example_world (scripted [reply 200 [one_tag], reply 204 [], reply 200 []])"

text \<open>
  What release cleanup tests of a release: its \<^verbatim>\<open>created_at\<close> parses to a time strictly
  before the cutoff.
\<close>

definition older :: "world \<Rightarrow> datetime \<Rightarrow> item \<Rightarrow> bool" where
  "older W cutoff_date release =
     (case getitem release ''created_at'' of
        Inl e \<Rightarrow> False
      | Inr created_at \<Rightarrow>
          (case strptime_of W created_at of
             Inl e \<Rightarrow> False
           | Inr release_date \<Rightarrow> dt_less release_date cutoff_date))"


text \<open>
  A remote side for the examples that lists the given items once, then empty pages, and
  answers every other request with the given status.
\<close>

definition serving :: "item list \<Rightarrow> int \<Rightarrow> event list \<Rightarrow> request \<Rightarrow> response" where
  "serving items code log rq =
     (if req_method rq = ''GET'' then (if calls log = [] then reply 200 items else reply 200 [])
      else reply code [])"

text \<open>
  The part of a URL that is sent to the server: the fragment, from the first \<^verbatim>\<open>#\<close> on,
  stays with the client.
\<close>

definition request_target :: "string \<Rightarrow> string" where
  "request_target u = takeWhile (\<lambda>c. c \<noteq> CHR ''#'') u"




text \<open>
  What a run of release cleanup shows from outside: the releases that the listing
  requests returned, page after page; the number of delete requests answered with 204;
  and the address the interface gives for deleting a release.
\<close>

definition listed :: "event list \<Rightarrow> item list" where
  "listed log =
     concat (map (\<lambda>(rq, rs). if req_method rq = ''GET'' \<and> status_code rs = 200
                              then body_json rs else []) (calls log))"

definition successes :: "event list \<Rightarrow> int" where
  "successes log =
     int (length (filter (\<lambda>(rq, rs). req_method rq = ''DELETE'' \<and> status_code rs = 204)
                    (calls log)))"

definition release_target :: "string \<Rightarrow> string \<Rightarrow> item \<Rightarrow> string" where
  "release_target org repo release =
     GITHUB_API_URL @ ''/repos/'' @ org @ ''/'' @ repo @ ''/releases/'' @ py_str (get release ''id'')"

text \<open>The end of a run that stopped at the limit: a delete answered 204 and the two prints.\<close>

definition stopped_at :: "int option \<Rightarrow> event list \<Rightarrow> bool" where
  "stopped_at limit log =
     (3 \<le> length log
      \<and> (case log ! (length log - 3) of
           Call rq rs \<Rightarrow> req_method rq = ''DELETE'' \<and> status_code rs = 204
         | _ \<Rightarrow> False)
      \<and> (case log ! (length log - 2) of
           Print p \<Rightarrow> (case p of DeletedRelease nm d \<Rightarrow> True | _ \<Rightarrow> False)
         | _ \<Rightarrow> False)
      \<and> last log = Print (ReachedLimitOfDeletions limit))"

text \<open>
  A page of four releases, for the examples: the second was created at the very second
  that is 30 days before \<open>now0\<close>, the others in 2023.
\<close>

definition release_at :: "string \<Rightarrow> int \<Rightarrow> item" where
  "release_at created i = [(''created_at'', JStr created), (''id'', JInt i)]"

definition four_releases :: "item list" where
  "four_releases = [release_at ''2023-01-01T00:00:00Z'' 1, release_at ''2024-03-01T12:00:00Z'' 2,
                    release_at ''2023-06-01T00:00:00Z'' 3, release_at ''2023-07-01T00:00:00Z'' 4]"

section \<open>Properties\<close>

subsection \<open>Reading the log\<close>

lemma send_eq [simp]:
  "send W rq log = (transport W log rq, log @ [Call rq (transport W log rq)])"
  by (simp add: send_def Let_def)

lemma calls_append [simp]: "calls (xs @ ys) = calls xs @ calls ys"
  by (simp add: calls_def)

lemma calls_simps [simp]:
  "calls [] = []"
  "calls (Call rq rs # xs) = (rq, rs) # calls xs"
  "calls (Sleep n # xs) = calls xs"
  "calls (Print p # xs) = calls xs"
  by (simp_all add: calls_def)

lemma sleeps_append [simp]: "sleeps (xs @ ys) = sleeps xs @ sleeps ys"
  by (simp add: sleeps_def)

lemma sleeps_simps [simp]:
  "sleeps [] = []"
  "sleeps (Call rq rs # xs) = sleeps xs"
  "sleeps (Sleep n # xs) = n # sleeps xs"
  "sleeps (Print p # xs) = sleeps xs"
  by (simp_all add: sleeps_def)

lemma last_response_simps [simp]:
  "last_response (log @ [Call rq rs]) = Some rs"
  "last_response (log @ [Print p]) = last_response log"
  "last_response (log @ [Sleep n]) = last_response log"
  by (simp_all add: last_response_def)

lemma last_response_more [simp]:
  "last_response (log @ [Call rq rs, Print p, Sleep n]) = Some rs"
  by (simp add: last_response_def)

subsection \<open>A limit of zero\<close>









subsection \<open>The request executor\<close>

lemma attempts_403:
  "m = ''GET'' \<or> m = ''DELETE'' \<or> m = ''PATCH'' \<Longrightarrow>
   status_code (transport W log (api_request m u hs js)) = 403 \<Longrightarrow>
   attempts W u m hs js retries (a # rest) prev log =
   attempts W u m hs js retries rest (Some (transport W log (api_request m u hs js)))
     (log @ [Call (api_request m u hs js) (transport W log (api_request m u hs js)),
             Print RateLimitReached, Sleep 60])"
  by simp

lemma attempts_ok:
  "m = ''GET'' \<or> m = ''DELETE'' \<or> m = ''PATCH'' \<Longrightarrow>
   status_code (transport W log (api_request m u hs js)) = 200 \<or>
   status_code (transport W log (api_request m u hs js)) = 204 \<Longrightarrow>
   attempts W u m hs js retries (a # rest) prev log =
   (Inr (transport W log (api_request m u hs js)),
    log @ [Call (api_request m u hs js) (transport W log (api_request m u hs js))])"
  by auto

lemma attempts_other:
  "m = ''GET'' \<or> m = ''DELETE'' \<or> m = ''PATCH'' \<Longrightarrow>
   status_code (transport W log (api_request m u hs js)) \<noteq> 403 \<Longrightarrow>
   status_code (transport W log (api_request m u hs js)) \<noteq> 200 \<Longrightarrow>
   status_code (transport W log (api_request m u hs js)) \<noteq> 204 \<Longrightarrow>
   attempts W u m hs js retries (a # rest) prev log =
   attempts W u m hs js retries rest (Some (transport W log (api_request m u hs js)))
     (log @ [Call (api_request m u hs js) (transport W log (api_request m u hs js)),
             Print (AttemptFailed (int a + 1) retries
                      (body_text (transport W log (api_request m u hs js)))),
             Sleep RETRY_DELAY])"
  by simp

lemma attempts_returns:
  assumes m: "m = ''GET'' \<or> m = ''DELETE'' \<or> m = ''PATCH''"
  shows "xs \<noteq> [] \<or> prev \<noteq> None \<Longrightarrow> (\<forall>r. prev = Some r \<longrightarrow> last_response log = Some r) \<Longrightarrow>
         \<exists>r log'. attempts W u m hs js retries xs prev log = (Inr r, log')
            \<and> last_response log' = Some r
            \<and> length (calls log') \<le> length (calls log) + length xs"
proof (induction xs arbitrary: prev log)
  case Nil
  then show ?case by auto
next
  case (Cons a xs)
  let ?rq = "api_request m u hs js"
  let ?rs = "transport W log ?rq"
  consider (limited) "status_code ?rs = 403"
    | (ok) "status_code ?rs = 200 \<or> status_code ?rs = 204"
    | (other) "status_code ?rs \<noteq> 403" "status_code ?rs \<noteq> 200" "status_code ?rs \<noteq> 204"
    by blast
  then show ?case
  proof cases
    case limited
    let ?l = "log @ [Call ?rq ?rs, Print RateLimitReached, Sleep 60]"
    have "\<exists>r log'. attempts W u m hs js retries xs (Some ?rs) ?l = (Inr r, log')
            \<and> last_response log' = Some r
            \<and> length (calls log') \<le> length (calls ?l) + length xs"
      by (rule Cons.IH) simp_all
    then obtain r log' where
      "attempts W u m hs js retries xs (Some ?rs) ?l = (Inr r, log')"
      "last_response log' = Some r" "length (calls log') \<le> length (calls ?l) + length xs"
      by blast
    then show ?thesis
      unfolding attempts_403 [OF m limited] by simp
  next
    case ok
    show ?thesis
      unfolding attempts_ok [OF m ok] by simp
  next
    case other
    let ?l = "log @ [Call ?rq ?rs, Print (AttemptFailed (int a + 1) retries (body_text ?rs)),
                     Sleep RETRY_DELAY]"
    have "\<exists>r log'. attempts W u m hs js retries xs (Some ?rs) ?l = (Inr r, log')
            \<and> last_response log' = Some r
            \<and> length (calls log') \<le> length (calls ?l) + length xs"
      by (rule Cons.IH) simp_all
    then obtain r log' where
      "attempts W u m hs js retries xs (Some ?rs) ?l = (Inr r, log')"
      "last_response log' = Some r" "length (calls log') \<le> length (calls ?l) + length xs"
      by blast
    then show ?thesis
      unfolding attempts_other [OF m other] by simp
  qed
qed

lemma attempts_all_403:
  assumes m: "m = ''GET'' \<or> m = ''DELETE'' \<or> m = ''PATCH''"
    and limited: "\<And>l. status_code (transport W l (api_request m u hs js)) = 403"
  shows "xs \<noteq> [] \<or> (\<exists>r. prev = Some r \<and> status_code r = 403) \<Longrightarrow>
         \<exists>r log'. attempts W u m hs js retries xs prev log = (Inr r, log')
            \<and> status_code r = 403
            \<and> length (calls log') = length (calls log) + length xs
            \<and> sleeps log' = sleeps log @ replicate (length xs) 60"
proof (induction xs arbitrary: prev log)
  case Nil
  then show ?case by auto
next
  case (Cons a xs)
  let ?rq = "api_request m u hs js"
  let ?rs = "transport W log ?rq"
  let ?l = "log @ [Call ?rq ?rs, Print RateLimitReached, Sleep 60]"
  have "\<exists>r log'. attempts W u m hs js retries xs (Some ?rs) ?l = (Inr r, log')
            \<and> status_code r = 403
            \<and> length (calls log') = length (calls ?l) + length xs
            \<and> sleeps log' = sleeps ?l @ replicate (length xs) 60"
    by (rule Cons.IH) (simp add: limited)
  then obtain r log' where
    "attempts W u m hs js retries xs (Some ?rs) ?l = (Inr r, log')" "status_code r = 403"
    "length (calls log') = length (calls ?l) + length xs"
    "sleeps log' = sleeps ?l @ replicate (length xs) 60"
    by blast
  then show ?case
    unfolding attempts_403 [OF m limited] by (simp add: replicate_append_same)
qed

text \<open>
  C3, as the specification states it: a 403 response does not use up the retry budget, so
  rate-limit responses alone can never exhaust it. The code advances the
  \<^verbatim>\<open>for attempt in range(retries)\<close> loop on \<^verbatim>\<open>continue\<close>: with the default budget, three
  403 responses end the call with the third 403 response, and a fourth request, which
  would have succeeded here, is never sent.
\<close>

theorem rate_limit_exhausts_budget:
  "make_request_with_retries
     (example_world (scripted [reply 403 [], reply 403 [], reply 403 [], reply 200 []]))
     ''u'' ''GET'' [] None MAX_RETRIES [] =
   (Inr (reply 403 []),
    [Call (api_request ''GET'' ''u'' [] None) (reply 403 []), Print RateLimitReached, Sleep 60,
     Call (api_request ''GET'' ''u'' [] None) (reply 403 []), Print RateLimitReached, Sleep 60,
     Call (api_request ''GET'' ''u'' [] None) (reply 403 []), Print RateLimitReached, Sleep 60])"
  by (simp add: make_request_with_retries_def MAX_RETRIES_def example_world_def scripted_def
      reply_def upt_rec)

text \<open>
  C3, amended: a 403 response triggers the fixed cooldown of 60 and the next iteration of
  the attempt loop, so it uses up one attempt like any other failure; when every response
  is a 403, the executor makes exactly \<open>retries\<close> calls, sleeps 60 after each, and returns
  the last 403 response.
\<close>

theorem rate_limit_consumes_attempt:
  assumes "m = ''GET'' \<or> m = ''DELETE'' \<or> m = ''PATCH''"
    and "\<forall>l. status_code (transport W l (api_request m u hs js)) = 403"
    and "0 < retries"
  shows "(\<exists>r log'. make_request_with_retries W u m hs js retries log = (Inr r, log')
            \<and> status_code r = 403
            \<and> length (calls log') = length (calls log) + nat retries
            \<and> sleeps log' = sleeps log @ replicate (nat retries) 60)
         \<and> attempts W u m hs js retries (a # rest) prev log =
           attempts W u m hs js retries rest (Some (transport W log (api_request m u hs js)))
             (log @ [Call (api_request m u hs js) (transport W log (api_request m u hs js)),
                     Print RateLimitReached, Sleep 60])"
proof
  have "[0 ..< nat retries] \<noteq> [] \<or> (\<exists>r. (None :: response option) = Some r \<and> status_code r = 403)"
    using assms(3) by simp
  from attempts_all_403 [OF assms(1) _ this, of W u hs js retries log] assms(2)
  show "\<exists>r log'. make_request_with_retries W u m hs js retries log = (Inr r, log')
            \<and> status_code r = 403
            \<and> length (calls log') = length (calls log) + nat retries
            \<and> sleeps log' = sleeps log @ replicate (nat retries) 60"
    by (simp add: make_request_with_retries_def)
next
  show "attempts W u m hs js retries (a # rest) prev log =
           attempts W u m hs js retries rest (Some (transport W log (api_request m u hs js)))
             (log @ [Call (api_request m u hs js) (transport W log (api_request m u hs js)),
                     Print RateLimitReached, Sleep 60])"
    using assms(1,2) by (intro attempts_403) auto
qed

theorem rate_limit_consumes_attempt_witness:
  "(\<exists>r log'. make_request_with_retries (example_world (always (reply 403 []))) ''u'' ''DELETE''
               [] None 3 [] = (Inr r, log')
            \<and> status_code r = 403 \<and> length (calls log') = 3 \<and> sleeps log' = [60, 60, 60])
   \<and> attempts (example_world (always (reply 403 []))) ''u'' ''DELETE'' [] None 3 [2] None [] =
     attempts (example_world (always (reply 403 []))) ''u'' ''DELETE'' [] None 3 []
       (Some (reply 403 []))
       [Call (api_request ''DELETE'' ''u'' [] None) (reply 403 []), Print RateLimitReached,
        Sleep 60]"
  using rate_limit_consumes_attempt [where m = "''DELETE''" and u = "''u''" and hs = "[]"
      and js = None and retries = 3 and log = "[]" and a = 2 and rest = "[]" and prev = None
      and W = "example_world (always (reply 403 []))"]
  by (simp add: example_world_def always_def reply_def numeral_3_eq_3)

subsection \<open>Branch cleanup\<close>

lemma deletes_append [simp]: "deletes (xs @ ys) = deletes xs @ deletes ys"
  by (simp add: deletes_def)

lemma deletes_simps [simp]:
  "deletes [] = []"
  "deletes (Call rq rs # xs) = (if req_method rq = ''DELETE'' then req_url rq # deletes xs else deletes xs)"
  "deletes (Sleep n # xs) = deletes xs"
  "deletes (Print p # xs) = deletes xs"
  by (simp_all add: deletes_def)

lemma api_request_sel [simp]:
  "req_method (api_request m u hs js) = m"
  "req_url (api_request m u hs js) = u"
  "req_params (api_request m u hs js) = None"
  "req_json (api_request m u hs js) = js"
  by (simp_all add: api_request_def)

lemma attempts_deletes:
  "set (deletes (snd (attempts W u m hs js k xs prev log))) \<subseteq>
   set (deletes log) \<union> (if m = ''DELETE'' then {u} else {})"
proof (induction xs arbitrary: prev log)
  case Nil
  show ?case by simp
next
  case (Cons a xs)
  let ?rq = "api_request m u hs js"
  let ?rs = "transport W log ?rq"
  show ?case
  proof (cases "m = ''GET'' \<or> m = ''DELETE'' \<or> m = ''PATCH''")
    case False
    then show ?thesis by simp
  next
    case m: True
    consider (limited) "status_code ?rs = 403"
      | (ok) "status_code ?rs = 200 \<or> status_code ?rs = 204"
      | (other) "status_code ?rs \<noteq> 403" "status_code ?rs \<noteq> 200" "status_code ?rs \<noteq> 204"
      by blast
    then show ?thesis
    proof cases
      case limited
      show ?thesis
        unfolding attempts_403 [OF m limited]
        using Cons.IH [of "Some ?rs" "log @ [Call ?rq ?rs, Print RateLimitReached, Sleep 60]"]
        by (auto split: if_splits)
    next
      case ok
      show ?thesis
        unfolding attempts_ok [OF m ok] by auto
    next
      case other
      show ?thesis
        unfolding attempts_other [OF m other]
        using Cons.IH [of "Some ?rs" "log @ [Call ?rq ?rs,
            Print (AttemptFailed (int a + 1) k (body_text ?rs)), Sleep RETRY_DELAY]"]
        by (auto split: if_splits)
    qed
  qed
qed

lemma request_deletes:
  "make_request_with_retries W u m hs js k log = (r, log1) \<Longrightarrow>
   set (deletes log1) \<subseteq> set (deletes log) \<union> (if m = ''DELETE'' then {u} else {})"
  using attempts_deletes [of W u m hs js k "[0 ..< nat k]" None log]
  by (simp add: make_request_with_retries_def)

lemma branches_for_deletes:
  "set (deletes (snd (snd (branches_for W org repo hs limit bs c log)))) \<subseteq>
   set (deletes log) \<union> {branch_delete_url org repo b | b. \<not> excluded b}"
proof (induction bs arbitrary: c log)
  case Nil
  show ?case by simp
next
  case (Cons branch bs)
  show ?case
  proof (cases "getitem branch ''name''")
    case (Inl e)
    then show ?thesis by simp
  next
    case (Inr b)
    show ?thesis
    proof (cases "excluded b")
      case True
      with Inr Cons.IH [of c log] show ?thesis by simp
    next
      case False
      obtain r log1 where mr:
        "make_request_with_retries W (branch_delete_url org repo b) ''DELETE'' hs None
           MAX_RETRIES log = (r, log1)"
        by (cases "make_request_with_retries W (branch_delete_url org repo b) ''DELETE'' hs None
           MAX_RETRIES log") 
      from request_deletes [OF mr] False
      have l1: "set (deletes log1) \<subseteq> set (deletes log) \<union> {branch_delete_url org repo b | b. \<not> excluded b}"
        by auto
      show ?thesis
      proof (cases r)
        case (Inl e)
        with Inr False mr l1 show ?thesis by simp
      next
        case r: (Inr rs)
        from Cons.IH [of "c + 1" "log1 @ [Print (DeletedBranch b)]"]
          Cons.IH [of c "log1 @ [Print (FailedToDeleteBranch b (body_text rs))]"]
          l1 Inr False mr r
        show ?thesis
          by (auto split: if_splits)
      qed
    qed
  qed
qed

lemma branches_while_deletes:
  "set (deletes (snd (branches_while fuel W org repo hs limit page c log))) \<subseteq>
   set (deletes log) \<union> {branch_delete_url org repo b | b. \<not> excluded b}"
proof (induction fuel arbitrary: page c log)
  case 0
  show ?case by simp
next
  case (Suc fuel)
  obtain r log1 where mr:
    "make_request_with_retries W (branches_url org repo) ''GET'' hs (Some (page_params page))
       MAX_RETRIES log = (r, log1)"
    by (cases "make_request_with_retries W (branches_url org repo) ''GET'' hs
       (Some (page_params page)) MAX_RETRIES log")
  from request_deletes [OF mr]
  have l1: "set (deletes log1) \<subseteq> set (deletes log)"
    by simp
  show ?case
  proof (cases r)
    case (Inl e)
    with mr l1 show ?thesis by auto
  next
    case r: (Inr rs)
    obtain fl c2 log2 where bf:
      "branches_for W org repo hs limit (body_json rs) c log1 = (fl, c2, log2)"
      by (cases "branches_for W org repo hs limit (body_json rs) c log1")
    from branches_for_deletes [of W org repo hs limit "body_json rs" c log1] bf l1
    have l2: "set (deletes log2) \<subseteq> set (deletes log) \<union> {branch_delete_url org repo b | b. \<not> excluded b}"
      by auto
    from Suc.IH [of "page + 1" c2 log2] l2
    have l3: "set (deletes (snd (branches_while fuel W org repo hs limit (page + 1) c2 log2))) \<subseteq>
       set (deletes log) \<union> {branch_delete_url org repo b | b. \<not> excluded b}"
      by blast
    from mr r bf l1 l2 l3 show ?thesis
      by (cases fl) (auto split: if_splits)
  qed
qed

lemma str_nat_digits: "set (str_nat n) \<subseteq> set ''0123456789''"
proof (induction n rule: str_nat.induct)
  case (1 n)
  have d: "digit_char k \<in> set ''0123456789''" if "k < 10" for k
    unfolding digit_char_def using that by (intro nth_mem) simp
  show ?case
  proof (cases "n < 10")
    case True
    with d [of n] show ?thesis by (subst str_nat.simps) simp
  next
    case False
    with 1 d [of "n mod 10"] show ?thesis by (subst str_nat.simps) simp
  qed
qed

lemma py_str_main: "py_str b = ''main'' \<Longrightarrow> b = JStr ''main''"
  and py_str_master: "py_str b = ''master'' \<Longrightarrow> b = JStr ''master''"
  using str_nat_digits [of "nat (- (case b of JInt i \<Rightarrow> i | _ \<Rightarrow> 0))"]
    str_nat_digits [of "nat (case b of JInt i \<Rightarrow> i | _ \<Rightarrow> 0)"]
  by (cases b; auto simp: str_int_def split: if_splits)+

text \<open>
  What the guard \<^verbatim>\<open>branch_name not in EXCLUDED_BRANCHES\<close> ensures: whatever the listing
  calls return and whatever the limit is, every DELETE request of branch cleanup is built
  from a listed name that is neither \<^verbatim>\<open>main\<close> nor \<^verbatim>\<open>master\<close>, so its URL is not, as a
  string, the URL of one of those two references.
\<close>

lemma protected_names_never_interpolated:
  assumes "u \<in> set (deletes (snd (delete_branches fuel W org repo token limit [])))"
  shows "u \<noteq> branch_delete_url org repo (JStr ''main'')
       \<and> u \<noteq> branch_delete_url org repo (JStr ''master'')
       \<and> (\<exists>b. u = branch_delete_url org repo b \<and> b \<noteq> JStr ''main'' \<and> b \<noteq> JStr ''master'')"
proof -
  from assms branches_while_deletes [of fuel W org repo "bearer token" limit 1 0 "[]"]
  obtain b where b: "u = branch_delete_url org repo b" "\<not> excluded b"
    by (auto simp: delete_branches_def)
  from b(2) have ne: "b \<noteq> JStr ''main''" "b \<noteq> JStr ''master''"
    by (auto simp: excluded_def EXCLUDED_BRANCHES_def)
  have "u \<noteq> branch_delete_url org repo (JStr ''main'')"
    using b(1) ne(1) py_str_main [of b] by (auto simp: branch_delete_url_def)
  moreover have "u \<noteq> branch_delete_url org repo (JStr ''master'')"
    using b(1) ne(2) py_str_master [of b] by (auto simp: branch_delete_url_def)
  ultimately show ?thesis
    using b(1) ne by blast
qed

lemma protected_names_never_interpolated_example:
  "branch_delete_url ''o'' ''r'' (JStr ''dev'')
     \<in> set (deletes (snd (delete_branches 2 branches_world ''o'' ''r'' ''t'' None [])))
   \<and> branch_delete_url ''o'' ''r'' (JStr ''dev'') \<noteq> branch_delete_url ''o'' ''r'' (JStr ''main'')
   \<and> branch_delete_url ''o'' ''r'' (JStr ''dev'') \<noteq> branch_delete_url ''o'' ''r'' (JStr ''master'')"
proof -
  have h: "branch_delete_url ''o'' ''r'' (JStr ''dev'')
     \<in> set (deletes (snd (delete_branches 2 branches_world ''o'' ''r'' ''t'' None [])))"
    by (simp add: delete_branches_def numeral_2_eq_2 make_request_with_retries_def
      MAX_RETRIES_def upt_rec branches_world_def example_world_def scripted_def reply_def
      getitem_def excluded_def EXCLUDED_BRANCHES_def limit_reached_def)
  from h protected_names_never_interpolated [OF h] show ?thesis
    by blast
qed

subsection \<open>Issue closing\<close>

lemma str_int_7: "str_int 7 = ''7''"
  by (simp add: str_int_def str_nat.simps digit_char_def)

text \<open>
  C5 says that every issue-listing request carries \<^verbatim>\<open>state=open\<close>, \<^verbatim>\<open>per_page=50\<close> and
  the page number. \<^verbatim>\<open>close_issues\<close> builds that dictionary and advances its page number,
  but never passes it to the executor: on a repository with one open issue both listing
  requests go out with no query parameters and no body, and they are identical.
\<close>

theorem issue_listing_sends_no_parameters:
  "close_issues 2 issues_world ''o'' ''r'' ''t'' None [] =
   (Returned,
    [Call \<lparr>req_method = ''GET'', req_url = issues_url ''o'' ''r'', req_headers = bearer ''t'',
           req_params = None, req_json = None\<rparr>
       (reply 200 [[(''number'', JInt 7), (''title'', JStr ''bug'')]]),
     Call \<lparr>req_method = ''PATCH'', req_url = issues_url ''o'' ''r'' @ ''/7'',
           req_headers = bearer ''t'', req_params = None,
           req_json = Some [(''state'', JStr ''closed'')]\<rparr>
       (reply 200 []),
     Print (ClosedIssue (JStr ''bug'')),
     Call \<lparr>req_method = ''GET'', req_url = issues_url ''o'' ''r'', req_headers = bearer ''t'',
           req_params = None, req_json = None\<rparr>
       (reply 200 []),
     Print (FinishedClosingIssues 1)])"
  by (simp add: close_issues_def numeral_2_eq_2 make_request_with_retries_def
      MAX_RETRIES_def upt_rec issues_world_def example_world_def scripted_def reply_def
      getitem_def limit_reached_def api_request_def str_int_7)

subsection \<open>Release cleanup: the delete requests\<close>

lemma releases_for_sleeps:
  "sleeps (snd (snd (releases_for W u hs limit cutoff rs c log))) = sleeps log"
  by (induction rs arbitrary: c log) (simp_all split: sum.splits)

lemma releases_while_sleeps:
  "sleeps (snd (releases_while fuel W u hs limit cutoff page c log)) = sleeps log"
proof (induction fuel arbitrary: page c log)
  case 0
  show ?case by simp
next
  case (Suc fuel)
  let ?rs = "transport W (log @ [Print (FetchingReleases page)]) (releases_list u hs page)"
  let ?l1 = "log @ [Print (FetchingReleases page), Call (releases_list u hs page) ?rs]"
  obtain fl c2 log2 where rf:
    "releases_for W u hs limit cutoff (body_json ?rs) c ?l1 = (fl, c2, log2)"
    by (cases "releases_for W u hs limit cutoff (body_json ?rs) c ?l1")
  from releases_for_sleeps [of W u hs limit cutoff "body_json ?rs" c ?l1] rf
  have l2: "sleeps log2 = sleeps log"
    by simp
  from rf l2 Suc.IH [of "page + 1" c2 log2] show ?case
    by (cases fl) simp_all
qed

text \<open>
  C10. In release cleanup a delete request is one direct call of the transport: when the
  release is older than the cutoff and the response is anything but 204 (a 403, a 500),
  the failure is printed at once and the loop goes on to the next release, with no second
  request; and no run of release cleanup ever sleeps, so the cooldown and the delay of the
  retrying executor never happen on this path.
\<close>

theorem release_delete_not_retried:
  assumes "getitem release ''created_at'' = Inr created_at"
    and "strptime_of W created_at = Inr release_date"
    and "dt_less release_date cutoff_date"
    and "getitem release ''id'' = Inr release_id"
    and "status_code (transport W log (release_delete u hs release_id)) \<noteq> 204"
  shows "releases_for W u hs limit cutoff_date (release # rest) deleted_count log =
         releases_for W u hs limit cutoff_date rest deleted_count
           (log @ [Call (release_delete u hs release_id)
                     (transport W log (release_delete u hs release_id)),
                   Print (FailedToDeleteRelease (release_name_of release)
                     (status_code (transport W log (release_delete u hs release_id))))])
       \<and> sleeps (snd (delete_releases fuel W org repo token limit time_frame_gt log)) = sleeps log"
proof
  show "releases_for W u hs limit cutoff_date (release # rest) deleted_count log =
         releases_for W u hs limit cutoff_date rest deleted_count
           (log @ [Call (release_delete u hs release_id)
                     (transport W log (release_delete u hs release_id)),
                   Print (FailedToDeleteRelease (release_name_of release)
                     (status_code (transport W log (release_delete u hs release_id))))])"
    using assms by simp
next
  show "sleeps (snd (delete_releases fuel W org repo token limit time_frame_gt log)) = sleeps log"
    by (simp add: delete_releases_def releases_while_sleeps split: sum.splits)
qed

lemma iso_old: "iso_strptime ''2023-01-01T00:00:00Z'' =
  Inr \<lparr>year = 2023, month = 1, day = 1, hour = 0, minute = 0, second = 0, microsecond = 0\<rparr>"
  by (simp add: iso_strptime_def field_def is_digit_def digit_val_def)

theorem release_delete_not_retried_witness:
  "releases_for (example_world (scripted [reply 403 []])) ''u'' [] None now0 [old_release] 0 [] =
   (Next, 0,
    [Call (release_delete ''u'' [] (JInt 7)) (reply 403 []),
     Print (FailedToDeleteRelease (JStr ''v1'') 403)])
   \<and> sleeps (snd (delete_releases 1 (example_world (scripted [reply 403 []])) ''o'' ''r'' ''t''
                    None (Some ''30d'') [])) = []"
proof -
  let ?W = "example_world (scripted [reply 403 []])"
  have ca: "getitem old_release ''created_at'' = Inr (JStr ''2023-01-01T00:00:00Z'')"
    by (simp add: getitem_def old_release_def)
  have sp: "strptime_of ?W (JStr ''2023-01-01T00:00:00Z'') =
      Inr \<lparr>year = 2023, month = 1, day = 1, hour = 0, minute = 0, second = 0, microsecond = 0\<rparr>"
    by (simp add: strptime_of_def example_world_def iso_old)
  have lt: "dt_less \<lparr>year = 2023, month = 1, day = 1, hour = 0, minute = 0, second = 0,
      microsecond = 0\<rparr> now0"
    by (simp add: dt_less_def dt_key_def now0_def)
  have rid: "getitem old_release ''id'' = Inr (JInt 7)"
    by (simp add: getitem_def old_release_def)
  have st: "status_code (transport ?W [] (release_delete ''u'' [] (JInt 7))) \<noteq> 204"
    by (simp add: example_world_def scripted_def reply_def)
  have nm: "release_name_of old_release = JStr ''v1''"
    by (simp add: release_name_of_def get_def old_release_def py_or_def)
  have tr: "transport ?W [] (release_delete ''u'' [] (JInt 7)) = reply 403 []"
    by (simp add: example_world_def scripted_def)
  note t = release_delete_not_retried [OF ca sp lt rid st, where rest = "[]" and limit = None
      and deleted_count = 0 and fuel = 1 and org = "''o''" and repo = "''r''"
      and token = "''t''" and time_frame_gt = "Some ''30d''", unfolded tr nm]
  have st403: "status_code (reply 403 []) = 403"
    by (simp add: reply_def)
  have "releases_for ?W ''u'' [] None now0 [old_release] 0 [] =
      releases_for ?W ''u'' [] None now0 [] 0
        [Call (release_delete ''u'' [] (JInt 7)) (reply 403 []),
         Print (FailedToDeleteRelease (JStr ''v1'') 403)]"
    using t [THEN conjunct1] unfolding st403 by simp
  then have a: "releases_for ?W ''u'' [] None now0 [old_release] 0 [] =
      (Next, 0,
       [Call (release_delete ''u'' [] (JInt 7)) (reply 403 []),
        Print (FailedToDeleteRelease (JStr ''v1'') 403)])"
    by (simp only: releases_for.simps)
  have b: "sleeps (snd (delete_releases 1 ?W ''o'' ''r'' ''t'' None (Some ''30d'') [])) = []"
    using t [THEN conjunct2] by simp
  from a b show ?thesis
    by (rule conjI)
qed

subsection \<open>Paging\<close>

text \<open>
  C4, as the specification states it: every listing loop stops when a page has fewer than
  50 items. Tag cleanup on a repository whose first page holds a single tag deletes it and
  then asks for page 2; it stops only because that page is empty.
\<close>

theorem short_tag_page_is_followed_by_another_listing:
  "delete_tags 2 short_tags_world ''o'' ''r'' ''t'' None [] =
   (Returned,
    [Call (api_request ''GET'' (tags_url ''o'' ''r'') (bearer ''t'') (Some (page_params 1)))
       (reply 200 [one_tag]),
     Call (api_request ''DELETE'' (tag_delete_url ''o'' ''r'' (JStr ''refs/tags/v1''))
             (bearer ''t'') None) (reply 204 []),
     Print (DeletedTag (JStr ''refs/tags/v1'')),
     Call (api_request ''GET'' (tags_url ''o'' ''r'') (bearer ''t'') (Some (page_params 2)))
       (reply 200 []),
     Print (FinishedDeletingTags 1)])"
  by (simp add: delete_tags_def numeral_2_eq_2 make_request_with_retries_def
      MAX_RETRIES_def upt_rec short_tags_world_def example_world_def scripted_def reply_def
      getitem_def limit_reached_def one_tag_def)

text \<open>
  C4, amended. When the listing request returns status 200 and the items of the page are
  processed without reaching the limit: release cleanup stops exactly when the page has
  fewer than 50 items (an empty page included) and otherwise lists the next page; tag,
  branch and issue cleanup stop exactly when the page is empty and otherwise go on with
  the page number advanced, however short the page was.
\<close>

theorem listing_loops_stop:
  "(send W (releases_list u hs page) (log @ [Print (FetchingReleases page)]) = (rs, log1)
      \<and> status_code rs = 200
      \<and> releases_for W u hs limit cutoff_date (body_json rs) count log1 = (Next, count', log2)
    \<longrightarrow> releases_while (Suc fuel) W u hs limit cutoff_date page count log =
          (if int (length (body_json rs)) < 50
           then (Returned,
                 log2 @ [Print (if body_json rs = [] then NoMoreReleases
                                else NoMorePagesOfReleases),
                         Print (TotalDeletedReleases count')])
           else releases_while fuel W u hs limit cutoff_date (page + 1) count' log2))
   \<and> (make_request_with_retries W (tags_url org repo) ''GET'' hs (Some (page_params page))
         MAX_RETRIES log = (Inr rs, log1)
      \<and> status_code rs = 200
      \<and> tags_for W org repo hs limit (body_json rs) count log1 = (Next, count', log2)
    \<longrightarrow> tags_while (Suc fuel) W org repo hs limit page count log =
          (if body_json rs = [] then (Returned, log1 @ [Print (FinishedDeletingTags count)])
           else tags_while fuel W org repo hs limit (page + 1) count' log2))
   \<and> (make_request_with_retries W (branches_url org repo) ''GET'' hs (Some (page_params page))
         MAX_RETRIES log = (Inr rs, log1)
      \<and> status_code rs = 200
      \<and> branches_for W org repo hs limit (body_json rs) count log1 = (Next, count', log2)
    \<longrightarrow> branches_while (Suc fuel) W org repo hs limit page count log =
          (if body_json rs = [] then (Returned, log1 @ [Print (FinishedDeletingBranches count)])
           else branches_while fuel W org repo hs limit (page + 1) count' log2))
   \<and> (make_request_with_retries W u ''GET'' hs None MAX_RETRIES log = (Inr rs, log1)
      \<and> status_code rs = 200
      \<and> issues_for W u hs limit (body_json rs) count log1 = (Next, count', log2)
    \<longrightarrow> issues_while (Suc fuel) W u hs limit page count log =
          (if body_json rs = [] then (Returned, log1 @ [Print (FinishedClosingIssues count)])
           else issues_while fuel W u hs limit (page + 1) count' log2))"
proof (intro conjI impI)
  assume a: "send W (releases_list u hs page) (log @ [Print (FetchingReleases page)]) = (rs, log1)
      \<and> status_code rs = 200
      \<and> releases_for W u hs limit cutoff_date (body_json rs) count log1 = (Next, count', log2)"
  then have s: "send W (releases_list u hs page) (log @ [Print (FetchingReleases page)]) = (rs, log1)"
    and st: "status_code rs = 200"
    and rf: "releases_for W u hs limit cutoff_date (body_json rs) count log1 = (Next, count', log2)"
    by blast+
  show "releases_while (Suc fuel) W u hs limit cutoff_date page count log =
          (if int (length (body_json rs)) < 50
           then (Returned,
                 log2 @ [Print (if body_json rs = [] then NoMoreReleases
                                else NoMorePagesOfReleases),
                         Print (TotalDeletedReleases count')])
           else releases_while fuel W u hs limit cutoff_date (page + 1) count' log2)"
  proof (cases "body_json rs = []")
    case True
    with rf have "count' = count" "log2 = log1" by simp_all
    with True s st show ?thesis
      by (simp only: releases_while.simps) simp
  next
    case False
    with s st rf show ?thesis
      by (simp only: releases_while.simps) simp
  qed
next
  assume "make_request_with_retries W (tags_url org repo) ''GET'' hs (Some (page_params page))
         MAX_RETRIES log = (Inr rs, log1)
      \<and> status_code rs = 200
      \<and> tags_for W org repo hs limit (body_json rs) count log1 = (Next, count', log2)"
  then show "tags_while (Suc fuel) W org repo hs limit page count log =
          (if body_json rs = [] then (Returned, log1 @ [Print (FinishedDeletingTags count)])
           else tags_while fuel W org repo hs limit (page + 1) count' log2)"
    by (simp only: tags_while.simps) simp
next
  assume "make_request_with_retries W (branches_url org repo) ''GET'' hs (Some (page_params page))
         MAX_RETRIES log = (Inr rs, log1)
      \<and> status_code rs = 200
      \<and> branches_for W org repo hs limit (body_json rs) count log1 = (Next, count', log2)"
  then show "branches_while (Suc fuel) W org repo hs limit page count log =
          (if body_json rs = [] then (Returned, log1 @ [Print (FinishedDeletingBranches count)])
           else branches_while fuel W org repo hs limit (page + 1) count' log2)"
    by (simp only: branches_while.simps) simp
next
  assume "make_request_with_retries W u ''GET'' hs None MAX_RETRIES log = (Inr rs, log1)
      \<and> status_code rs = 200
      \<and> issues_for W u hs limit (body_json rs) count log1 = (Next, count', log2)"
  then show "issues_while (Suc fuel) W u hs limit page count log =
          (if body_json rs = [] then (Returned, log1 @ [Print (FinishedClosingIssues count)])
           else issues_while fuel W u hs limit (page + 1) count' log2)"
    by (simp only: issues_while.simps) simp
qed

lemmas run_defs = make_request_with_retries_def MAX_RETRIES_def upt_rec example_world_def
  scripted_def reply_def getitem_def limit_reached_def api_request_def

theorem listing_loops_stop_witness:
  "releases_while (Suc 0) short_releases_world ''u'' [] None now0 1 0 [] =
     (Returned,
      [Print (FetchingReleases 1),
       Call (releases_list ''u'' [] 1) (reply 200 [old_release]),
       Call (release_delete ''u'' [] (JInt 7)) (reply 204 []),
       Print (DeletedRelease (JStr ''v1'')
                \<lparr>year = 2023, month = 1, day = 1, hour = 0, minute = 0, second = 0,
                 microsecond = 0\<rparr>),
       Print NoMorePagesOfReleases, Print (TotalDeletedReleases 1)])
   \<and> tags_while (Suc 1) short_tags_world ''o'' ''r'' [] None 1 0 [] =
     tags_while 1 short_tags_world ''o'' ''r'' [] None 2 1
       [Call (api_request ''GET'' (tags_url ''o'' ''r'') [] (Some (page_params 1)))
          (reply 200 [one_tag]),
        Call (api_request ''DELETE'' (tag_delete_url ''o'' ''r'' (JStr ''refs/tags/v1'')) [] None)
          (reply 204 []),
        Print (DeletedTag (JStr ''refs/tags/v1''))]
   \<and> branches_while (Suc 1) branches_world ''o'' ''r'' [] None 1 0 [] =
     branches_while 1 branches_world ''o'' ''r'' [] None 2 1
       [Call (api_request ''GET'' (branches_url ''o'' ''r'') [] (Some (page_params 1)))
          (reply 200 [[(''name'', JStr ''main'')], [(''name'', JStr ''dev'')],
                      [(''name'', JStr ''master'')]]),
        Call (api_request ''DELETE'' (branch_delete_url ''o'' ''r'' (JStr ''dev'')) [] None)
          (reply 204 []),
        Print (DeletedBranch (JStr ''dev''))]
   \<and> issues_while (Suc 1) issues_world ''u'' [] None 1 0 [] =
     issues_while 1 issues_world ''u'' [] None 2 1
       [Call (api_request ''GET'' ''u'' [] None)
          (reply 200 [[(''number'', JInt 7), (''title'', JStr ''bug'')]]),
        Call (api_request ''PATCH'' (''u'' @ ''/'' @ py_str (JInt 7)) []
                (Some [(''state'', JStr ''closed'')])) (reply 200 []),
        Print (ClosedIssue (JStr ''bug''))]"
proof -
  have r: "send short_releases_world (releases_list ''u'' [] 1) ([] @ [Print (FetchingReleases 1)]) =
        (reply 200 [old_release],
         [Print (FetchingReleases 1), Call (releases_list ''u'' [] 1) (reply 200 [old_release])])
      \<and> status_code (reply 200 [old_release]) = 200
      \<and> releases_for short_releases_world ''u'' [] None now0 (body_json (reply 200 [old_release])) 0
          [Print (FetchingReleases 1), Call (releases_list ''u'' [] 1) (reply 200 [old_release])] =
        (Next, 1,
         [Print (FetchingReleases 1), Call (releases_list ''u'' [] 1) (reply 200 [old_release]),
          Call (release_delete ''u'' [] (JInt 7)) (reply 204 []),
          Print (DeletedRelease (JStr ''v1'')
                \<lparr>year = 2023, month = 1, day = 1, hour = 0, minute = 0, second = 0,
                 microsecond = 0\<rparr>)])"
    by (simp add: run_defs short_releases_world_def old_release_def strptime_of_def iso_old
        dt_less_def dt_key_def now0_def release_name_of_def get_def py_or_def)
  have t: "make_request_with_retries short_tags_world (tags_url ''o'' ''r'') ''GET'' []
          (Some (page_params 1)) MAX_RETRIES [] =
        (Inr (reply 200 [one_tag]),
         [Call (api_request ''GET'' (tags_url ''o'' ''r'') [] (Some (page_params 1)))
            (reply 200 [one_tag])])
      \<and> status_code (reply 200 [one_tag]) = 200
      \<and> tags_for short_tags_world ''o'' ''r'' [] None (body_json (reply 200 [one_tag])) 0
          [Call (api_request ''GET'' (tags_url ''o'' ''r'') [] (Some (page_params 1)))
            (reply 200 [one_tag])] =
        (Next, 1,
         [Call (api_request ''GET'' (tags_url ''o'' ''r'') [] (Some (page_params 1)))
            (reply 200 [one_tag]),
          Call (api_request ''DELETE'' (tag_delete_url ''o'' ''r'' (JStr ''refs/tags/v1'')) [] None)
            (reply 204 []),
          Print (DeletedTag (JStr ''refs/tags/v1''))])"
    by (simp add: run_defs short_tags_world_def one_tag_def)
  have b: "make_request_with_retries branches_world (branches_url ''o'' ''r'') ''GET'' []
          (Some (page_params 1)) MAX_RETRIES [] =
        (Inr (reply 200 [[(''name'', JStr ''main'')], [(''name'', JStr ''dev'')],
                      [(''name'', JStr ''master'')]]),
         [Call (api_request ''GET'' (branches_url ''o'' ''r'') [] (Some (page_params 1)))
            (reply 200 [[(''name'', JStr ''main'')], [(''name'', JStr ''dev'')],
                      [(''name'', JStr ''master'')]])])
      \<and> status_code (reply 200 [[(''name'', JStr ''main'')], [(''name'', JStr ''dev'')],
                      [(''name'', JStr ''master'')]]) = 200
      \<and> branches_for branches_world ''o'' ''r'' [] None
          (body_json (reply 200 [[(''name'', JStr ''main'')], [(''name'', JStr ''dev'')],
                      [(''name'', JStr ''master'')]])) 0
          [Call (api_request ''GET'' (branches_url ''o'' ''r'') [] (Some (page_params 1)))
            (reply 200 [[(''name'', JStr ''main'')], [(''name'', JStr ''dev'')],
                      [(''name'', JStr ''master'')]])] =
        (Next, 1,
         [Call (api_request ''GET'' (branches_url ''o'' ''r'') [] (Some (page_params 1)))
            (reply 200 [[(''name'', JStr ''main'')], [(''name'', JStr ''dev'')],
                      [(''name'', JStr ''master'')]]),
          Call (api_request ''DELETE'' (branch_delete_url ''o'' ''r'' (JStr ''dev'')) [] None)
            (reply 204 []),
          Print (DeletedBranch (JStr ''dev''))])"
    by (simp add: run_defs branches_world_def excluded_def EXCLUDED_BRANCHES_def)
  have i: "make_request_with_retries issues_world ''u'' ''GET'' [] None MAX_RETRIES [] =
        (Inr (reply 200 [[(''number'', JInt 7), (''title'', JStr ''bug'')]]),
         [Call (api_request ''GET'' ''u'' [] None)
            (reply 200 [[(''number'', JInt 7), (''title'', JStr ''bug'')]])])
      \<and> status_code (reply 200 [[(''number'', JInt 7), (''title'', JStr ''bug'')]]) = 200
      \<and> issues_for issues_world ''u'' [] None
          (body_json (reply 200 [[(''number'', JInt 7), (''title'', JStr ''bug'')]])) 0
          [Call (api_request ''GET'' ''u'' [] None)
            (reply 200 [[(''number'', JInt 7), (''title'', JStr ''bug'')]])] =
        (Next, 1,
         [Call (api_request ''GET'' ''u'' [] None)
            (reply 200 [[(''number'', JInt 7), (''title'', JStr ''bug'')]]),
          Call (api_request ''PATCH'' (''u'' @ ''/'' @ py_str (JInt 7)) []
                (Some [(''state'', JStr ''closed'')])) (reply 200 []),
          Print (ClosedIssue (JStr ''bug''))])"
    by (simp add: run_defs issues_world_def)
  have nr: "int (length (body_json (reply 200 [old_release]))) < 50"
    and ne: "body_json (reply 200 [old_release]) \<noteq> []"
      "body_json (reply 200 [one_tag]) \<noteq> []"
      "body_json (reply 200 [[(''name'', JStr ''main'')], [(''name'', JStr ''dev'')],
                      [(''name'', JStr ''master'')]]) \<noteq> []"
      "body_json (reply 200 [[(''number'', JInt 7), (''title'', JStr ''bug'')]]) \<noteq> []"
    by (simp_all add: reply_def)
  note c1 = listing_loops_stop [where fuel = 0, THEN conjunct1, THEN mp, OF r]
  note c2 = listing_loops_stop [where fuel = 1, THEN conjunct2, THEN conjunct1, THEN mp, OF t]
  note c3 = listing_loops_stop [where fuel = 1, THEN conjunct2, THEN conjunct2,
      THEN conjunct1, THEN mp, OF b]
  note c4 = listing_loops_stop [where fuel = 1, THEN conjunct2, THEN conjunct2,
      THEN conjunct2, THEN mp, OF i]
  from c1 nr ne(1) have w1: "releases_while (Suc 0) short_releases_world ''u'' [] None now0 1 0 [] =
     (Returned,
      [Print (FetchingReleases 1),
       Call (releases_list ''u'' [] 1) (reply 200 [old_release]),
       Call (release_delete ''u'' [] (JInt 7)) (reply 204 []),
       Print (DeletedRelease (JStr ''v1'')
                \<lparr>year = 2023, month = 1, day = 1, hour = 0, minute = 0, second = 0,
                 microsecond = 0\<rparr>),
       Print NoMorePagesOfReleases, Print (TotalDeletedReleases 1)])"
    by (simp only: if_True if_False append.simps simp_thms)
  from c2 ne(2) c3 ne(3) c4 ne(4) w1 show ?thesis
    by (simp only: if_False simp_thms one_add_one)
qed

subsection \<open>The executor: success, failure and the budget\<close>

lemma attempts_all_fail:
  assumes m: "m = ''GET'' \<or> m = ''DELETE'' \<or> m = ''PATCH''"
    and fail: "\<And>l. status_code (transport W l (api_request m u hs js)) \<notin> {403, 200, 204}"
  shows "xs \<noteq> [] \<or> (\<exists>r. prev = Some r \<and> last_response log = Some r) \<Longrightarrow>
         \<exists>r log'. attempts W u m hs js retries xs prev log = (Inr r, log')
            \<and> last_response log' = Some r
            \<and> length (calls log') = length (calls log) + length xs
            \<and> sleeps log' = sleeps log @ replicate (length xs) 2"
proof (induction xs arbitrary: prev log)
  case Nil
  then show ?case by auto
next
  case (Cons a xs)
  let ?rq = "api_request m u hs js"
  let ?rs = "transport W log ?rq"
  let ?l = "log @ [Call ?rq ?rs, Print (AttemptFailed (int a + 1) retries (body_text ?rs)),
                   Sleep RETRY_DELAY]"
  from fail [of log] have other: "status_code ?rs \<noteq> 403" "status_code ?rs \<noteq> 200"
      "status_code ?rs \<noteq> 204"
    by simp_all
  have "\<exists>r log'. attempts W u m hs js retries xs (Some ?rs) ?l = (Inr r, log')
            \<and> last_response log' = Some r
            \<and> length (calls log') = length (calls ?l) + length xs
            \<and> sleeps log' = sleeps ?l @ replicate (length xs) 2"
    by (rule Cons.IH) simp
  then obtain r log' where
    "attempts W u m hs js retries xs (Some ?rs) ?l = (Inr r, log')" "last_response log' = Some r"
    "length (calls log') = length (calls ?l) + length xs"
    "sleeps log' = sleeps ?l @ replicate (length xs) 2"
    by blast
  then show ?case
    unfolding attempts_other [OF m other] by (simp add: replicate_append_same RETRY_DELAY_def)
qed

lemma first_attempt: "0 < retries \<Longrightarrow> [0 ..< nat retries] = 0 # [Suc 0 ..< nat retries]"
  by (simp add: upt_conv_Cons)

text \<open>
  C7. For a supported method and a positive budget, \<^verbatim>\<open>make_request_with_retries\<close>
  returns at once, after a single request, when the first response has status 200 or 204;
  on any status other than 403, 200 and 204 it prints the failure, sleeps the delay of 2
  and goes on with one attempt fewer, and so does every later attempt; when no attempt is
  left the last response is returned as it is; when every response is such a failure it
  makes exactly as many requests as the budget allows, 3 by default, sleeps 2 after each
  and returns the last response; and it never raises.
\<close>

theorem executor_contract:
  assumes "m = ''GET'' \<or> m = ''DELETE'' \<or> m = ''PATCH''"
  shows "(0 < retries \<and> (status_code (transport W log (api_request m u hs js)) = 200
            \<or> status_code (transport W log (api_request m u hs js)) = 204) \<longrightarrow>
          make_request_with_retries W u m hs js retries log =
            (Inr (transport W log (api_request m u hs js)),
             log @ [Call (api_request m u hs js) (transport W log (api_request m u hs js))]))
       \<and> (0 < retries \<and> status_code (transport W log (api_request m u hs js)) \<notin> {403, 200, 204}
          \<longrightarrow> make_request_with_retries W u m hs js retries log =
            attempts W u m hs js retries [Suc 0 ..< nat retries]
              (Some (transport W log (api_request m u hs js)))
              (log @ [Call (api_request m u hs js) (transport W log (api_request m u hs js)),
                      Print (AttemptFailed 1 retries
                               (body_text (transport W log (api_request m u hs js)))),
                      Sleep 2]))
       \<and> (status_code (transport W log (api_request m u hs js)) = 200
            \<or> status_code (transport W log (api_request m u hs js)) = 204 \<longrightarrow>
          attempts W u m hs js retries (a # rest) prev log =
            (Inr (transport W log (api_request m u hs js)),
             log @ [Call (api_request m u hs js) (transport W log (api_request m u hs js))]))
       \<and> (status_code (transport W log (api_request m u hs js)) \<notin> {403, 200, 204} \<longrightarrow>
          attempts W u m hs js retries (a # rest) prev log =
            attempts W u m hs js retries rest (Some (transport W log (api_request m u hs js)))
              (log @ [Call (api_request m u hs js) (transport W log (api_request m u hs js)),
                      Print (AttemptFailed (int a + 1) retries
                               (body_text (transport W log (api_request m u hs js)))),
                      Sleep 2]))
       \<and> attempts W u m hs js retries [] (Some r0) log = (Inr r0, log)
       \<and> (0 < retries \<and> (\<forall>l. status_code (transport W l (api_request m u hs js)) \<notin> {403, 200, 204})
          \<longrightarrow> (\<exists>r log'. make_request_with_retries W u m hs js retries log = (Inr r, log')
               \<and> last_response log' = Some r
               \<and> length (calls log') = length (calls log) + nat retries
               \<and> sleeps log' = sleeps log @ replicate (nat retries) 2))
       \<and> ((\<forall>l. status_code (transport W l (api_request m u hs js)) \<notin> {403, 200, 204})
          \<longrightarrow> (\<exists>r log'. make_request_with_retries W u m hs js MAX_RETRIES log = (Inr r, log')
               \<and> last_response log' = Some r
               \<and> length (calls log') = length (calls log) + 3
               \<and> sleeps log' = sleeps log @ [2, 2, 2]))
       \<and> (0 < retries \<longrightarrow>
            (\<exists>r log'. make_request_with_retries W u m hs js retries log = (Inr r, log')
               \<and> last_response log' = Some r
               \<and> length (calls log') \<le> length (calls log) + nat retries))
       \<and> (\<exists>r log'. make_request_with_retries W u m hs js MAX_RETRIES log = (Inr r, log')
               \<and> last_response log' = Some r
               \<and> length (calls log') \<le> length (calls log) + 3)"
proof -
  let ?rq = "api_request m u hs js"
  let ?rs = "transport W log ?rq"
  have ok: "status_code ?rs = 200 \<or> status_code ?rs = 204 \<longrightarrow>
      attempts W u m hs js retries (a # rest) prev log = (Inr ?rs, log @ [Call ?rq ?rs])" for a rest prev
    using attempts_ok [OF assms] by blast
  have other: "status_code ?rs \<notin> {403, 200, 204} \<longrightarrow>
      attempts W u m hs js retries (a # rest) prev log =
      attempts W u m hs js retries rest (Some ?rs)
        (log @ [Call ?rq ?rs, Print (AttemptFailed (int a + 1) retries (body_text ?rs)),
                Sleep 2])" for a rest prev
    using attempts_other [OF assms, of W log u hs js retries a rest prev]
    by (simp add: RETRY_DELAY_def)
  have first_ok: "0 < retries \<and> (status_code ?rs = 200 \<or> status_code ?rs = 204) \<longrightarrow>
      make_request_with_retries W u m hs js retries log = (Inr ?rs, log @ [Call ?rq ?rs])"
  proof
    assume h: "0 < retries \<and> (status_code ?rs = 200 \<or> status_code ?rs = 204)"
    then have "[0 ..< nat retries] = 0 # [Suc 0 ..< nat retries]"
      by (simp add: first_attempt)
    with h ok [of 0 "[Suc 0 ..< nat retries]" None]
    show "make_request_with_retries W u m hs js retries log = (Inr ?rs, log @ [Call ?rq ?rs])"
      unfolding make_request_with_retries_def by simp
  qed
  have first_other: "0 < retries \<and> status_code ?rs \<notin> {403, 200, 204} \<longrightarrow>
      make_request_with_retries W u m hs js retries log =
      attempts W u m hs js retries [Suc 0 ..< nat retries] (Some ?rs)
        (log @ [Call ?rq ?rs, Print (AttemptFailed 1 retries (body_text ?rs)), Sleep 2])"
  proof
    assume h: "0 < retries \<and> status_code ?rs \<notin> {403, 200, 204}"
    then have "[0 ..< nat retries] = 0 # [Suc 0 ..< nat retries]"
      by (simp add: first_attempt)
    with h other [of 0 "[Suc 0 ..< nat retries]" None]
    show "make_request_with_retries W u m hs js retries log =
      attempts W u m hs js retries [Suc 0 ..< nat retries] (Some ?rs)
        (log @ [Call ?rq ?rs, Print (AttemptFailed 1 retries (body_text ?rs)), Sleep 2])"
      unfolding make_request_with_retries_def by simp
  qed
  have spent: "attempts W u m hs js retries [] (Some r0) log = (Inr r0, log)"
    by simp
  have total: "\<exists>r log'. make_request_with_retries W u m hs js k log = (Inr r, log')
               \<and> last_response log' = Some r
               \<and> length (calls log') \<le> length (calls log) + nat k" if "0 < k" for k
  proof -
    from that have "[0 ..< nat k] \<noteq> [] \<or> (None :: response option) \<noteq> None"
      by simp
    from attempts_returns [OF assms this, of log W u hs js k]
    show ?thesis
      by (simp add: make_request_with_retries_def)
  qed
  have dflt: "\<exists>r log'. make_request_with_retries W u m hs js MAX_RETRIES log = (Inr r, log')
               \<and> last_response log' = Some r
               \<and> length (calls log') \<le> length (calls log) + 3"
    using total [of MAX_RETRIES] by (simp add: MAX_RETRIES_def)
  have allfail: "\<exists>r log'. make_request_with_retries W u m hs js k log = (Inr r, log')
               \<and> last_response log' = Some r
               \<and> length (calls log') = length (calls log) + nat k
               \<and> sleeps log' = sleeps log @ replicate (nat k) 2"
    if "0 < k" and f: "\<forall>l. status_code (transport W l ?rq) \<notin> {403, 200, 204}" for k
  proof -
    from that have ne: "[0 ..< nat k] \<noteq> [] \<or> (\<exists>r. (None :: response option) = Some r
        \<and> last_response log = Some r)"
      by simp
    have f': "\<And>l. status_code (transport W l ?rq) \<notin> {403, 200, 204}"
      using f by blast
    from attempts_all_fail [OF assms f' ne, of k]
    show ?thesis
      by (simp add: make_request_with_retries_def)
  qed
  have allfail_dflt: "(\<forall>l. status_code (transport W l ?rq) \<notin> {403, 200, 204})
          \<longrightarrow> (\<exists>r log'. make_request_with_retries W u m hs js MAX_RETRIES log = (Inr r, log')
               \<and> last_response log' = Some r
               \<and> length (calls log') = length (calls log) + 3
               \<and> sleeps log' = sleeps log @ [2, 2, 2])"
  proof
    assume f: "\<forall>l. status_code (transport W l ?rq) \<notin> {403, 200, 204}"
    have "(0 :: int) < MAX_RETRIES" by (simp add: MAX_RETRIES_def)
    from allfail [OF this f] show "\<exists>r log'. make_request_with_retries W u m hs js MAX_RETRIES log = (Inr r, log')
               \<and> last_response log' = Some r
               \<and> length (calls log') = length (calls log) + 3
               \<and> sleeps log' = sleeps log @ [2, 2, 2]"
      by (simp add: MAX_RETRIES_def numeral_3_eq_3)
  qed
  from first_ok first_other ok [of a rest prev] other [of a rest prev] spent
    allfail [of retries] allfail_dflt total [of retries] dflt
  show ?thesis
    by blast
qed

theorem executor_contract_witness:
  "make_request_with_retries (example_world (scripted [reply 500 [], reply 204 []])) ''u''
     ''PATCH'' [] None 3 [] =
   (Inr (reply 204 []),
    [Call (api_request ''PATCH'' ''u'' [] None) (reply 500 []), Print (AttemptFailed 1 3 []),
     Sleep 2, Call (api_request ''PATCH'' ''u'' [] None) (reply 204 [])])
   \<and> make_request_with_retries (example_world (scripted [reply 200 []])) ''u'' ''GET'' [] None
       3 [] =
     (Inr (reply 200 []), [Call (api_request ''GET'' ''u'' [] None) (reply 200 [])])
   \<and> (\<exists>r log'. make_request_with_retries (example_world (always (reply 500 []))) ''u'' ''DELETE''
                 [] None MAX_RETRIES [] = (Inr r, log')
         \<and> last_response log' = Some r \<and> length (calls log') = 3 \<and> sleeps log' = [2, 2, 2])"
proof -
  let ?W = "example_world (scripted [reply 500 [], reply 204 []])"
  let ?rq = "api_request ''PATCH'' ''u'' [] None"
  let ?l1 = "[Call ?rq (reply 500 []), Print (AttemptFailed 1 3 []), Sleep 2]"
  have m: "''PATCH'' = ''GET'' \<or> ''PATCH'' = ''DELETE'' \<or> ''PATCH'' = ''PATCH''"
    and g: "''GET'' = ''GET'' \<or> ''GET'' = ''DELETE'' \<or> ''GET'' = ''PATCH''"
    and d: "''DELETE'' = ''GET'' \<or> ''DELETE'' = ''DELETE'' \<or> ''DELETE'' = ''PATCH''"
    by simp_all
  have t0: "transport ?W [] ?rq = reply 500 []"
    by (simp add: example_world_def scripted_def)
  have t1: "transport ?W ?l1 ?rq = reply 204 []"
    by (simp add: example_world_def scripted_def)
  have s0: "0 < (3 :: int) \<and> status_code (reply 500 []) \<notin> {403, 200, 204}"
    by (simp add: reply_def)
  have s1: "status_code (reply 204 []) = 200 \<or> status_code (reply 204 []) = 204"
    by (simp add: reply_def)
  have bt: "body_text (reply 500 []) = []"
    by (simp add: reply_def)
  have up: "[Suc 0 ..< nat 3] = [1, 2]"
    by (simp add: upt_rec)
  note c0 = executor_contract [OF m, where W = ?W and u = "''u''" and hs = "[]" and js = None
      and retries = 3 and log = "[]", THEN conjunct2, THEN conjunct1, unfolded t0, THEN mp,
      OF s0, unfolded bt up append_Nil]
  note c1 = executor_contract [OF m, where W = ?W and u = "''u''" and hs = "[]" and js = None
      and retries = 3 and log = ?l1 and a = 1 and rest = "[2]" and prev = "Some (reply 500 [])",
      THEN conjunct2, THEN conjunct2, THEN conjunct1, unfolded t1, THEN mp, OF s1]
  have a: "make_request_with_retries ?W ''u'' ''PATCH'' [] None 3 [] =
      (Inr (reply 204 []), ?l1 @ [Call ?rq (reply 204 [])])"
    using c0 c1 by simp
  let ?V = "example_world (scripted [reply 200 []])"
  have v0: "transport ?V [] (api_request ''GET'' ''u'' [] None) = reply 200 []"
    by (simp add: example_world_def scripted_def)
  have sv: "0 < (3 :: int) \<and> (status_code (reply 200 []) = 200 \<or> status_code (reply 200 []) = 204)"
    by (simp add: reply_def)
  note c2 = executor_contract [OF g, where W = ?V and u = "''u''" and hs = "[]" and js = None
      and retries = 3 and log = "[]", THEN conjunct1, unfolded v0, THEN mp, OF sv,
      unfolded append_Nil]
  let ?U = "example_world (always (reply 500 []))"
  have au: "\<forall>l. status_code (transport ?U l (api_request ''DELETE'' ''u'' [] None)) \<notin> {403, 200, 204}"
    by (simp add: example_world_def always_def reply_def)
  note c3 = executor_contract [OF d, where W = ?U and u = "''u''" and hs = "[]" and js = None
      and log = "[]", THEN conjunct2, THEN conjunct2, THEN conjunct2, THEN conjunct2,
      THEN conjunct2, THEN conjunct2, THEN conjunct1, THEN mp, OF au]
  have c: "\<exists>r log'. make_request_with_retries ?U ''u'' ''DELETE'' [] None MAX_RETRIES [] = (Inr r, log')
         \<and> last_response log' = Some r \<and> length (calls log') = 3 \<and> sleeps log' = [2, 2, 2]"
    using c3 by simp
  from a c2 c show ?thesis
    by simp
qed

subsection \<open>A limit of zero does not stop the loops\<close>









lemma cutoff_30d: "calculate_cutoff_date (example_world t) (Some ''30d'') =
  Inr \<lparr>year = 2024, month = 3, day = 1, hour = 12, minute = 0, second = 0, microsecond = 0\<rparr>"
  by (simp add: calculate_cutoff_date_def example_world_def now0_def endswith_def py_int_def
      strip_def is_space_def int_magnitude_def is_digit_def digit_val_def mk_timedelta_def
      dt_sub_timedelta_def ymd2ord_def days_before_year_def days_before_month_def
      DAYS_BEFORE_MONTH_def is_leap_def MAXORDINAL_def ord2ymd_def Let_def)



subsection \<open>Branch names that reach a protected branch\<close>

text \<open>
  C1 says that branch cleanup never issues a delete request for the branch \<^verbatim>\<open>main\<close> or
  \<^verbatim>\<open>master\<close>. The name is put into the URL as it is listed, without quoting: a listed
  branch \<^verbatim>\<open>main#x\<close> is not in the protected set, its DELETE request is sent, and the
  target of that request, the URL without its fragment, is the reference of \<^verbatim>\<open>main\<close>.
\<close>

theorem fragment_in_branch_name_deletes_main:
  "deletes (snd (delete_branches 2
      (example_world (serving [[(''name'', JStr ''main#x'')]] 204)) ''o'' ''r'' ''t'' None [])) =
     [branch_delete_url ''o'' ''r'' (JStr ''main#x'')]
   \<and> request_target (branch_delete_url ''o'' ''r'' (JStr ''main#x'')) =
     branch_delete_url ''o'' ''r'' (JStr ''main'')
   \<and> \<not> excluded (JStr ''main#x'')"
proof (intro conjI)
  show "deletes (snd (delete_branches 2
      (example_world (serving [[(''name'', JStr ''main#x'')]] 204)) ''o'' ''r'' ''t'' None [])) =
     [branch_delete_url ''o'' ''r'' (JStr ''main#x'')]"
    by (simp add: delete_branches_def numeral_2_eq_2 make_request_with_retries_def
        MAX_RETRIES_def upt_rec example_world_def serving_def reply_def getitem_def excluded_def
        EXCLUDED_BRANCHES_def limit_reached_def)
  show "request_target (branch_delete_url ''o'' ''r'' (JStr ''main#x'')) =
     branch_delete_url ''o'' ''r'' (JStr ''main'')"
    by (simp add: request_target_def branch_delete_url_def GITHUB_API_URL_def)
  show "\<not> excluded (JStr ''main#x'')"
    by (simp add: excluded_def EXCLUDED_BRANCHES_def)
qed

subsection \<open>The cutoff calculator\<close>










subsection \<open>Release cleanup: which releases are deleted, and how many\<close>

lemma listed_append [simp]: "listed (xs @ ys) = listed xs @ listed ys"
  by (simp add: listed_def)

lemma listed_simps [simp]:
  "listed [] = []"
  "listed (Call rq rs # xs) =
     (if req_method rq = ''GET'' \<and> status_code rs = 200 then body_json rs else []) @ listed xs"
  "listed (Sleep n # xs) = listed xs"
  "listed (Print p # xs) = listed xs"
  by (simp_all add: listed_def)

lemma successes_append [simp]: "successes (xs @ ys) = successes xs + successes ys"
  by (simp add: successes_def)

lemma successes_simps [simp]:
  "successes [] = 0"
  "successes (Call rq rs # xs) =
     (if req_method rq = ''DELETE'' \<and> status_code rs = 204 then 1 else 0) + successes xs"
  "successes (Sleep n # xs) = successes xs"
  "successes (Print p # xs) = successes xs"
  by (simp_all add: successes_def)

lemma successes_nonneg: "0 \<le> successes log"
  by (simp add: successes_def)

lemma release_delete_sel [simp]:
  "req_method (release_delete u hs i) = ''DELETE''"
  "req_url (release_delete u hs i) = u @ ''/'' @ py_str i"
  by (simp_all add: release_delete_def)

lemma releases_list_sel [simp]: "req_method (releases_list u hs p) = ''GET''"
  by (simp add: releases_list_def)

lemma getitem_get: "getitem d k = Inr v \<Longrightarrow> get d k = v"
  by (auto simp: getitem_def get_def split: option.splits)

lemma stopped_at_append:
  "stopped_at limit (evs @ [Call rq rs, Print (DeletedRelease nm d),
      Print (ReachedLimitOfDeletions limit)]) \<longleftrightarrow> req_method rq = ''DELETE'' \<and> status_code rs = 204"
  by (simp add: stopped_at_def nth_append)

lemma stopped_at_more: "stopped_at limit new \<Longrightarrow> stopped_at limit (pre @ new)"
  by (cases "new = []") (auto simp: stopped_at_def nth_append)

text \<open>One release of the page: the loop raises, returns at the limit, or goes on.\<close>

lemma releases_for_step:
  assumes run: "releases_for W u hs limit cutoff (r # rest) c log = (fl, c', log')"
  shows "(\<exists>e. fl = Raise e \<and> c' = c \<and> log' = log)
       \<or> (fl = Return \<and> c' = c + 1 \<and> limit_reached limit (c + 1) \<and> older W cutoff r
            \<and> (\<exists>rq rs nm d. req_method rq = ''DELETE''
                 \<and> req_url rq = u @ ''/'' @ py_str (get r ''id'') \<and> status_code rs = 204
                 \<and> log' = log @ [Call rq rs, Print (DeletedRelease nm d),
                                 Print (ReachedLimitOfDeletions limit)]))
       \<or> (\<exists>c2 step. releases_for W u hs limit cutoff rest c2 (log @ step) = (fl, c', log')
            \<and> deletes step = map (\<lambda>r. u @ ''/'' @ py_str (get r ''id''))
                                (filter (older W cutoff) [r])
            \<and> listed step = [] \<and> successes step = c2 - c
            \<and> (c2 = c \<or> c2 = c + 1 \<and> \<not> limit_reached limit (c + 1)))"
proof (cases "getitem r ''created_at''")
  case (Inl e)
  with run show ?thesis by auto
next
  case ca: (Inr created_at)
  show ?thesis
  proof (cases "strptime_of W created_at")
    case (Inl e)
    with run ca show ?thesis by auto
  next
    case sp: (Inr d)
    show ?thesis
    proof (cases "dt_less d cutoff")
      case False
      with ca sp have no: "\<not> older W cutoff r"
        by (simp add: older_def)
      from run ca sp False have
        "releases_for W u hs limit cutoff rest c
           (log @ [Print (SkippingRelease (release_name_of r) d cutoff)]) = (fl, c', log')"
        by simp
      with no show ?thesis
        by (intro disjI2 exI [of _ c]
            exI [of _ "[Print (SkippingRelease (release_name_of r) d cutoff)]"]) simp
    next
      case True
      with ca sp have ol: "older W cutoff r"
        by (simp add: older_def)
      show ?thesis
      proof (cases "getitem r ''id''")
        case (Inl e)
        with run ca sp True show ?thesis by auto
      next
        case rid: (Inr release_id)
        then have g: "get r ''id'' = release_id"
          by (rule getitem_get)
        let ?rq = "release_delete u hs release_id"
        let ?rs = "transport W log ?rq"
        consider (fail) "status_code ?rs \<noteq> 204"
          | (stop) "status_code ?rs = 204" "limit_reached limit (c + 1)"
          | (go) "status_code ?rs = 204" "\<not> limit_reached limit (c + 1)"
          by blast
        then show ?thesis
        proof cases
          case fail
          with run ca sp True rid have
            "releases_for W u hs limit cutoff rest c
               (log @ [Call ?rq ?rs,
                       Print (FailedToDeleteRelease (release_name_of r) (status_code ?rs))])
             = (fl, c', log')"
            by simp
          with ol g fail show ?thesis
            by (intro disjI2 exI [of _ c]
                exI [of _ "[Call ?rq ?rs,
                  Print (FailedToDeleteRelease (release_name_of r) (status_code ?rs))]"]) simp
        next
          case stop
          with run ca sp True rid have
            "fl = Return \<and> c' = c + 1 \<and> log' = log @ [Call ?rq ?rs,
               Print (DeletedRelease (release_name_of r) d),
               Print (ReachedLimitOfDeletions limit)]"
            by auto
          with ol g stop show ?thesis
            by (intro disjI2 disjI1) auto
        next
          case go
          with run ca sp True rid have
            "releases_for W u hs limit cutoff rest (c + 1)
               (log @ [Call ?rq ?rs, Print (DeletedRelease (release_name_of r) d)])
             = (fl, c', log')"
            by simp
          with ol g go show ?thesis
            by (intro disjI2 exI [of _ "c + 1"]
                exI [of _ "[Call ?rq ?rs, Print (DeletedRelease (release_name_of r) d)]"]) simp
        qed
      qed
    qed
  qed
qed

text \<open>
  A page: the delete requests are those for the older releases among the first \<open>k\<close> of
  the page, all of it when the loop falls through; the count goes up by the deletions
  that succeeded, and was below the limit at every test but the one that returned.
\<close>

lemma releases_for_spec:
  assumes "releases_for W u hs limit cutoff rs c log = (fl, c', log')"
  shows "\<exists>new k. log' = log @ new \<and> k \<le> length rs \<and> listed new = []
     \<and> successes new = c' - c
     \<and> deletes new = map (\<lambda>r. u @ ''/'' @ py_str (get r ''id''))
                        (filter (older W cutoff) (take k rs))
     \<and> (fl = Next \<longrightarrow> k = length rs)
     \<and> (fl = Return \<longrightarrow> limit_reached limit c' \<and> stopped_at limit new
           \<and> (c' = c + 1 \<or> \<not> limit_reached limit (c' - 1)))
     \<and> (fl \<noteq> Return \<longrightarrow> c' = c \<or> \<not> limit_reached limit c')"
  using assms
proof (induction rs arbitrary: c log)
  case Nil
  then show ?case
    by (intro exI [of _ "[]"] exI [of _ 0]) auto
next
  case (Cons r rest)
  from releases_for_step [OF Cons.prems] consider
    (raise) e where "fl = Raise e" "c' = c" "log' = log"
  | (stop) rq rs nm d where "fl = Return" "c' = c + 1" "limit_reached limit (c + 1)"
      "older W cutoff r" "req_method rq = ''DELETE''"
      "req_url rq = u @ ''/'' @ py_str (get r ''id'')" "status_code rs = 204"
      "log' = log @ [Call rq rs, Print (DeletedRelease nm d),
                     Print (ReachedLimitOfDeletions limit)]"
  | (go) c2 step where
      "releases_for W u hs limit cutoff rest c2 (log @ step) = (fl, c', log')"
      "deletes step = map (\<lambda>r. u @ ''/'' @ py_str (get r ''id'')) (filter (older W cutoff) [r])"
      "listed step = []" "successes step = c2 - c"
      "c2 = c \<or> c2 = c + 1 \<and> \<not> limit_reached limit (c + 1)"
    by blast
  then show ?case
  proof cases
    case raise
    then show ?thesis
      by (intro exI [of _ "[]"] exI [of _ 0]) simp
  next
    case stop
    have st: "stopped_at limit [Call rq rs, Print (DeletedRelease nm d),
        Print (ReachedLimitOfDeletions limit)]"
      using stopped_at_append [of limit "[]" rq rs nm d] stop(5,7) by simp
    from stop st show ?thesis
      by (intro exI [of _ "[Call rq rs, Print (DeletedRelease nm d),
            Print (ReachedLimitOfDeletions limit)]"] exI [of _ "Suc 0"]) simp
  next
    case go
    from Cons.IH [OF go(1)] obtain new k where ih:
      "log' = (log @ step) @ new" "k \<le> length rest" "listed new = []"
      "successes new = c' - c2"
      "deletes new = map (\<lambda>r. u @ ''/'' @ py_str (get r ''id''))
                        (filter (older W cutoff) (take k rest))"
      "fl = Next \<longrightarrow> k = length rest"
      "fl = Return \<longrightarrow> limit_reached limit c' \<and> stopped_at limit new
           \<and> (c' = c2 + 1 \<or> \<not> limit_reached limit (c' - 1))"
      "fl \<noteq> Return \<longrightarrow> c' = c2 \<or> \<not> limit_reached limit c'"
      by blast
    have a: "log' = log @ (step @ new)"
      using ih(1) by simp
    have b: "Suc k \<le> length (r # rest)"
      using ih(2) by simp
    have c: "listed (step @ new) = []"
      using ih(3) go(3) by simp
    have d: "successes (step @ new) = c' - c"
      using ih(4) go(4) by simp
    have e: "deletes (step @ new) = map (\<lambda>r. u @ ''/'' @ py_str (get r ''id''))
                        (filter (older W cutoff) (take (Suc k) (r # rest)))"
      using ih(5) go(2) by simp
    have f: "fl = Next \<longrightarrow> Suc k = length (r # rest)"
      using ih(6) by simp
    have g: "fl = Return \<longrightarrow> limit_reached limit c' \<and> stopped_at limit (step @ new)
           \<and> (c' = c + 1 \<or> \<not> limit_reached limit (c' - 1))"
    proof
      assume r: "fl = Return"
      with ih(7) have x: "limit_reached limit c'" "stopped_at limit new"
          "c' = c2 + 1 \<or> \<not> limit_reached limit (c' - 1)"
        by simp_all
      from x(3) go(5) have "c' = c + 1 \<or> \<not> limit_reached limit (c' - 1)"
        by (auto simp: algebra_simps)
      with x(1) stopped_at_more [OF x(2)] show "limit_reached limit c'
          \<and> stopped_at limit (step @ new) \<and> (c' = c + 1 \<or> \<not> limit_reached limit (c' - 1))"
        by simp
    qed
    have h: "fl \<noteq> Return \<longrightarrow> c' = c \<or> \<not> limit_reached limit c'"
      using ih(8) go(5) by auto
    from a b c d e f g h show ?thesis
      by blast
  qed
qed

text \<open>
  The whole loop: either it returned at the limit, right after the deletion that reached
  it, or every count tested was below the limit and, unless an exception ended the run,
  every listed release was processed.
\<close>

lemma releases_while_spec:
  assumes "releases_while fuel W u hs limit cutoff page c log = (out, log')"
  shows "\<exists>new k. log' = log @ new \<and> k \<le> length (listed new)
     \<and> deletes new = map (\<lambda>r. u @ ''/'' @ py_str (get r ''id''))
                        (filter (older W cutoff) (take k (listed new)))
     \<and> ((out = Returned \<and> stopped_at limit new \<and> limit_reached limit (c + successes new)
           \<and> (successes new = 1 \<or> \<not> limit_reached limit (c + successes new - 1)))
        \<or> ((successes new = 0 \<or> \<not> limit_reached limit (c + successes new))
           \<and> ((\<forall>e. out \<noteq> Raised e) \<longrightarrow> k = length (listed new))))"
  using assms
proof (induction fuel arbitrary: page c log)
  case 0
  then show ?case
    by (intro exI [of _ "[]"] exI [of _ 0]) simp
next
  case (Suc fuel)
  let ?f = "\<lambda>r. u @ ''/'' @ py_str (get r ''id'')"
  let ?rq = "releases_list u hs page"
  let ?rs = "transport W (log @ [Print (FetchingReleases page)]) ?rq"
  let ?pre = "[Print (FetchingReleases page), Call ?rq ?rs]"
  consider (bad) "status_code ?rs \<noteq> 200"
    | (empty) "status_code ?rs = 200" "body_json ?rs = []"
    | (page) "status_code ?rs = 200" "body_json ?rs \<noteq> []"
    by blast
  then show ?case
  proof cases
    case bad
    with Suc.prems show ?thesis
      by (intro exI [of _ "?pre @ [Print (FailedToFetchReleases (status_code ?rs) (body_text ?rs)),
            Print (TotalDeletedReleases c)]"] exI [of _ 0]) auto
  next
    case empty
    with Suc.prems show ?thesis
      by (intro exI [of _ "?pre @ [Print NoMoreReleases, Print (TotalDeletedReleases c)]"]
          exI [of _ 0]) auto
  next
    case page
    obtain fl c2 log2 where rf:
      "releases_for W u hs limit cutoff (body_json ?rs) c (log @ ?pre) = (fl, c2, log2)"
      by (cases "releases_for W u hs limit cutoff (body_json ?rs) c (log @ ?pre)")
    from releases_for_spec [OF rf] obtain newf kf where fs:
      "log2 = (log @ ?pre) @ newf" "kf \<le> length (body_json ?rs)" "listed newf = []"
      "successes newf = c2 - c"
      "deletes newf = map ?f (filter (older W cutoff) (take kf (body_json ?rs)))"
      "fl = Next \<longrightarrow> kf = length (body_json ?rs)"
      "fl = Return \<longrightarrow> limit_reached limit c2 \<and> stopped_at limit newf
           \<and> (c2 = c + 1 \<or> \<not> limit_reached limit (c2 - 1))"
      "fl \<noteq> Return \<longrightarrow> c2 = c \<or> \<not> limit_reached limit c2"
      by blast
    have lp: "listed (?pre @ newf) = body_json ?rs"
      using fs(3) page(1) by simp
    have dp: "deletes (?pre @ newf) = map ?f (filter (older W cutoff) (take kf (body_json ?rs)))"
      using fs(5) by simp
    have sp: "successes (?pre @ newf) = c2 - c"
      using fs(4) by simp
    show ?thesis
    proof (cases fl)
      case (Raise e)
      with Suc.prems page rf have o: "out = Raised e" "log' = log2"
        by simp_all
      from fs(8) Raise have "c2 = c \<or> \<not> limit_reached limit c2"
        by simp
      with o fs(1,2) lp dp sp show ?thesis
        by (intro exI [of _ "?pre @ newf"] exI [of _ kf]) auto
    next
      case Return
      with Suc.prems page rf have o: "out = Returned" "log' = log2"
        by simp_all
      from fs(7) Return have x: "limit_reached limit c2" "stopped_at limit newf"
          "c2 = c + 1 \<or> \<not> limit_reached limit (c2 - 1)"
        by simp_all
      from x(1) sp have y: "limit_reached limit (c + successes (?pre @ newf))"
        by simp
      from x(3) sp have z: "successes (?pre @ newf) = 1
          \<or> \<not> limit_reached limit (c + successes (?pre @ newf) - 1)"
        by auto
      from o fs(1,2) lp dp y z stopped_at_more [OF x(2), of ?pre] show ?thesis
        by (intro exI [of _ "?pre @ newf"] exI [of _ kf]) simp
    next
      case Next
      with fs(6) have kf: "kf = length (body_json ?rs)"
        by simp
      from fs(8) Next have inv: "c2 = c \<or> \<not> limit_reached limit c2"
        by simp
      show ?thesis
      proof (cases "int (length (body_json ?rs)) < 50")
        case True
        with Suc.prems page rf Next have o: "out = Returned"
            "log' = log2 @ [Print NoMorePagesOfReleases, Print (TotalDeletedReleases c2)]"
          by simp_all
        let ?new = "?pre @ newf @ [Print NoMorePagesOfReleases, Print (TotalDeletedReleases c2)]"
        have a: "log' = log @ ?new"
          using o(2) fs(1) by simp
        have b: "listed ?new = body_json ?rs"
          using lp by simp
        have c: "deletes ?new = map ?f (filter (older W cutoff) (take kf (listed ?new)))"
          using dp b by simp
        have d: "successes ?new = c2 - c"
          using sp by simp
        from inv d have e: "successes ?new = 0 \<or> \<not> limit_reached limit (c + successes ?new)"
          by auto
        from a b c e kf show ?thesis
          by (intro exI [of _ ?new] exI [of _ kf]) simp
      next
        case False
        with Suc.prems page rf Next have
          "releases_while fuel W u hs limit cutoff (page + 1) c2 log2 = (out, log')"
          by simp
        from Suc.IH [OF this] obtain new2 k2 where ih:
          "log' = log2 @ new2" "k2 \<le> length (listed new2)"
          "deletes new2 = map ?f (filter (older W cutoff) (take k2 (listed new2)))"
          "(out = Returned \<and> stopped_at limit new2 \<and> limit_reached limit (c2 + successes new2)
              \<and> (successes new2 = 1 \<or> \<not> limit_reached limit (c2 + successes new2 - 1)))
           \<or> ((successes new2 = 0 \<or> \<not> limit_reached limit (c2 + successes new2))
              \<and> ((\<forall>e. out \<noteq> Raised e) \<longrightarrow> k2 = length (listed new2)))"
          by blast
        let ?k = "length (body_json ?rs) + k2"
        define N where "N = ?pre @ newf @ new2"
        have a: "log' = log @ N"
          unfolding N_def using ih(1) fs(1) by simp
        have b: "listed N = body_json ?rs @ listed new2"
          unfolding N_def using lp by simp
        have st: "stopped_at limit new2 \<Longrightarrow> stopped_at limit N"
          unfolding N_def using stopped_at_more [of limit new2 "?pre @ newf"] by simp
        have d: "successes N = c2 - c + successes new2"
          unfolding N_def using sp by simp
        have c: "deletes N = map ?f (filter (older W cutoff) (take ?k (listed N)))"
          unfolding b unfolding N_def using dp ih(3) kf by simp
        have k: "?k \<le> length (listed N)"
          unfolding b using ih(2) by simp
        have full: "k2 = length (listed new2) \<Longrightarrow> ?k = length (listed N)"
          unfolding b by simp
        have e1: "c + successes N = c2 + successes new2"
          using d by simp
        have e2: "c + successes N - 1 = c2 + successes new2 - 1"
          using d by simp
        have e: "(out = Returned \<and> stopped_at limit N
              \<and> limit_reached limit (c + successes N)
              \<and> (successes N = 1 \<or> \<not> limit_reached limit (c + successes N - 1)))
           \<or> ((successes N = 0 \<or> \<not> limit_reached limit (c + successes N))
              \<and> ((\<forall>e. out \<noteq> Raised e) \<longrightarrow> ?k = length (listed N)))"
          using ih(4)
        proof
          assume s: "out = Returned \<and> stopped_at limit new2
              \<and> limit_reached limit (c2 + successes new2)
              \<and> (successes new2 = 1 \<or> \<not> limit_reached limit (c2 + successes new2 - 1))"
          have x: "successes N = 1 \<or> \<not> limit_reached limit (c + successes N - 1)"
          proof (cases "successes new2 = 1")
            case True
            then have eq: "c + successes N - 1 = c2"
              using d by simp
            from inv show ?thesis
            proof
              assume "c2 = c"
              with True d show ?thesis by simp
            next
              assume "\<not> limit_reached limit c2"
              then show ?thesis unfolding eq by (rule disjI2)
            qed
          next
            case False
            with s have "\<not> limit_reached limit (c2 + successes new2 - 1)"
              by blast
            then show ?thesis unfolding e2 by (rule disjI2)
          qed
          from s have y: "limit_reached limit (c + successes N)"
            unfolding e1 by blast
          from s st have "out = Returned" "stopped_at limit N"
            by blast+
          with x y show ?thesis
            by blast
        next
          assume s: "(successes new2 = 0 \<or> \<not> limit_reached limit (c2 + successes new2))
              \<and> ((\<forall>e. out \<noteq> Raised e) \<longrightarrow> k2 = length (listed new2))"
          have x: "successes N = 0 \<or> \<not> limit_reached limit (c + successes N)"
          proof (cases "successes new2 = 0")
            case True
            then have eq: "c + successes N = c2"
              using d by simp
            from inv show ?thesis
            proof
              assume "c2 = c"
              with True d show ?thesis by simp
            next
              assume "\<not> limit_reached limit c2"
              then show ?thesis unfolding eq by (rule disjI2)
            qed
          next
            case False
            with s have "\<not> limit_reached limit (c2 + successes new2)"
              by blast
            then show ?thesis unfolding e1 by (rule disjI2)
          qed
          from s full have "(\<forall>e. out \<noteq> Raised e) \<longrightarrow> ?k = length (listed N)"
            by blast
          with x show ?thesis
            by blast
        qed
        from a k c e show ?thesis
          by (intro exI [of _ N] exI [of _ ?k] conjI)
      qed
    qed
  qed
qed

lemmas release_run_defs = example_world_def serving_def reply_def getitem_def get_def
  limit_reached_def strptime_of_def iso_strptime_def field_def is_digit_def digit_val_def
  dt_less_def dt_key_def release_name_of_def py_or_def release_delete_def releases_list_def
  str_int_def str_nat.simps digit_char_def old_release_def release_at_def four_releases_def
  now0_def

text \<open>
  C2, as the specification states it: release cleanup performs no more successful
  deletions than the limit the caller gave. With \<^verbatim>\<open>--limit 0\<close> on a repository with two
  old releases it deletes both; with \<^verbatim>\<open>--limit -1\<close> it deletes one. The test is
  \<^verbatim>\<open>limit and deleted_count >= limit\<close>, made after a deletion.
\<close>

theorem limit_of_zero_or_less_is_exceeded:
  "successes (snd (delete_releases 2 (example_world (serving [old_release, old_release] 204))
      ''o'' ''r'' ''t'' (Some 0) (Some ''30d'') [])) = 2
   \<and> successes (snd (delete_releases 2 (example_world (serving [old_release, old_release] 204))
      ''o'' ''r'' ''t'' (Some (- 1)) (Some ''30d'') [])) = 1"
  by (simp add: delete_releases_def cutoff_30d numeral_2_eq_2)
     (simp add: release_run_defs)

text \<open>
  C2, amended. Take a run of release cleanup from the start of the process, with a cutoff
  that could be computed. The delete requests of the run are, in order, the requests for
  the releases created strictly before the cutoff among the first \<open>k\<close> releases listed,
  each addressed by its id; releases created at or after the cutoff get no request.
  Without a limit, or with limit 0, \<open>k\<close> covers every release listed unless an exception
  ended the run. With a limit \<open>l > 0\<close>: at most \<open>l\<close> deletions succeed; while fewer
  than \<open>l\<close> have succeeded every release listed is processed; and when \<open>l\<close> have
  succeeded the operation has returned, the last events of the run being the delete
  request answered 204 and the two prints that follow it, so that no release is looked at
  after the one that reached the limit. A negative limit stops the run in the same way at
  the first deletion that succeeds.
\<close>

theorem release_cleanup_deletes_older_up_to_limit:
  assumes cutoff: "calculate_cutoff_date W time_frame_gt = Inr cutoff_date"
    and run: "delete_releases fuel W org repo token limit time_frame_gt [] = (out, log)"
  shows "\<exists>k \<le> length (listed log).
           deletes log = map (release_target org repo)
                           (filter (older W cutoff_date) (take k (listed log)))
         \<and> (limit = None \<or> limit = Some 0 \<longrightarrow>
              (\<forall>e. out \<noteq> Raised e) \<longrightarrow> k = length (listed log))
         \<and> (limit = Some l \<and> 0 < l \<longrightarrow>
              successes log \<le> l
            \<and> (successes log < l \<and> (\<forall>e. out \<noteq> Raised e) \<longrightarrow> k = length (listed log))
            \<and> (successes log = l \<longrightarrow> out = Returned \<and> stopped_at limit log))
         \<and> (limit = Some l \<and> l < 0 \<longrightarrow>
              successes log \<le> 1
            \<and> (successes log = 0 \<and> (\<forall>e. out \<noteq> Raised e) \<longrightarrow> k = length (listed log))
            \<and> (successes log = 1 \<longrightarrow> out = Returned \<and> stopped_at limit log))"
proof -
  let ?f = "\<lambda>r. releases_url org repo @ ''/'' @ py_str (get r ''id'')"
  let ?pre = "[Print (DeletingReleasesBefore cutoff_date)]"
  from run cutoff have rw: "releases_while fuel W (releases_url org repo) (bearer token) limit
      cutoff_date 1 0 ?pre = (out, log)"
    by (simp add: delete_releases_def)
  from releases_while_spec [OF rw] obtain new k where s:
    "log = ?pre @ new" "k \<le> length (listed new)"
    "deletes new = map ?f (filter (older W cutoff_date) (take k (listed new)))"
    "(out = Returned \<and> stopped_at limit new \<and> limit_reached limit (0 + successes new)
        \<and> (successes new = 1 \<or> \<not> limit_reached limit (0 + successes new - 1)))
     \<or> ((successes new = 0 \<or> \<not> limit_reached limit (0 + successes new))
        \<and> ((\<forall>e. out \<noteq> Raised e) \<longrightarrow> k = length (listed new)))"
    by blast
  have tgt: "?f = release_target org repo"
    by (simp add: fun_eq_iff release_target_def releases_url_def)
  have l: "listed new = listed log" "deletes new = deletes log" "successes new = successes log"
    using s(1) by simp_all
  have st: "stopped_at limit new \<Longrightarrow> stopped_at limit log"
    unfolding s(1) by (rule stopped_at_more)
  define S where "S = successes log"
  define full where "full \<longleftrightarrow> ((\<forall>e. out \<noteq> Raised e) \<longrightarrow> k = length (listed log))"
  define stop where "stop \<longleftrightarrow> out = Returned \<and> stopped_at limit log"
  have S0: "0 \<le> S"
    unfolding S_def by (rule successes_nonneg)
  from s(4) st have d: "(stop \<and> limit_reached limit S \<and> (S = 1 \<or> \<not> limit_reached limit (S - 1)))
      \<or> ((S = 0 \<or> \<not> limit_reached limit S) \<and> full)"
    unfolding l S_def full_def stop_def by auto
  have a: "k \<le> length (listed log)"
    using s(2) unfolding l .
  have b: "deletes log = map (release_target org repo)
      (filter (older W cutoff_date) (take k (listed log)))"
    using s(3) unfolding l tgt .
  have c1: "limit = None \<or> limit = Some 0 \<longrightarrow> full"
    using d by (auto simp: limit_reached_def)
  have c2: "limit = Some l \<and> 0 < l \<longrightarrow> S \<le> l \<and> (S < l \<longrightarrow> full) \<and> (S = l \<longrightarrow> stop)"
    using d S0 by (auto simp: limit_reached_def)
  have c3: "limit = Some l \<and> l < 0 \<longrightarrow> S \<le> 1 \<and> (S = 0 \<longrightarrow> full) \<and> (S = 1 \<longrightarrow> stop)"
    using d S0 by (auto simp: limit_reached_def)
  from a b c1 c2 c3 show ?thesis
    unfolding S_def full_def stop_def by (intro exI [of _ k]) blast
qed

theorem release_cleanup_deletes_older_up_to_limit_witness:
  "fst (delete_releases 2 (example_world (serving four_releases 204)) ''o'' ''r'' ''t''
          (Some 2) (Some ''30d'') []) = Returned
   \<and> listed (snd (delete_releases 2 (example_world (serving four_releases 204)) ''o'' ''r'' ''t''
          (Some 2) (Some ''30d'') [])) = four_releases
   \<and> filter (older (example_world (serving four_releases 204))
        \<lparr>year = 2024, month = 3, day = 1, hour = 12, minute = 0, second = 0, microsecond = 0\<rparr>)
        four_releases =
       [release_at ''2023-01-01T00:00:00Z'' 1, release_at ''2023-06-01T00:00:00Z'' 3,
        release_at ''2023-07-01T00:00:00Z'' 4]
   \<and> deletes (snd (delete_releases 2 (example_world (serving four_releases 204)) ''o'' ''r'' ''t''
          (Some 2) (Some ''30d'') [])) =
       [''https://api.github.com/repos/o/r/releases/1'',
        ''https://api.github.com/repos/o/r/releases/3'']
   \<and> successes (snd (delete_releases 2 (example_world (serving four_releases 204)) ''o'' ''r''
          ''t'' (Some 2) (Some ''30d'') [])) = 2
   \<and> stopped_at (Some 2) (snd (delete_releases 2 (example_world (serving four_releases 204))
          ''o'' ''r'' ''t'' (Some 2) (Some ''30d'') []))"
proof -
  let ?W = "example_world (serving four_releases 204)"
  let ?c = "\<lparr>year = 2024, month = 3, day = 1, hour = 12, minute = 0, second = 0,
      microsecond = 0\<rparr>"
  let ?run = "delete_releases 2 ?W ''o'' ''r'' ''t'' (Some 2) (Some ''30d'') []"
  have cutoff: "calculate_cutoff_date ?W (Some ''30d'') = Inr ?c"
    by (rule cutoff_30d)
  have run: "?run = (fst ?run, snd ?run)"
    by simp
  have out: "fst ?run = Returned"
    by (simp add: delete_releases_def cutoff_30d numeral_2_eq_2) (simp add: release_run_defs)
  have li: "listed (snd ?run) = four_releases"
    by (simp add: delete_releases_def cutoff_30d numeral_2_eq_2) (simp add: release_run_defs)
  have ol: "filter (older ?W ?c) four_releases =
       [release_at ''2023-01-01T00:00:00Z'' 1, release_at ''2023-06-01T00:00:00Z'' 3,
        release_at ''2023-07-01T00:00:00Z'' 4]"
    by (simp add: older_def release_run_defs)
  have de: "deletes (snd ?run) =
       [''https://api.github.com/repos/o/r/releases/1'',
        ''https://api.github.com/repos/o/r/releases/3'']"
    by (simp add: delete_releases_def cutoff_30d numeral_2_eq_2)
       (simp add: release_run_defs releases_url_def GITHUB_API_URL_def)
  have su: "successes (snd ?run) = 2"
    by (simp add: delete_releases_def cutoff_30d numeral_2_eq_2) (simp add: release_run_defs)
  from release_cleanup_deletes_older_up_to_limit [OF cutoff run, where l = 2] su
  have "stopped_at (Some 2) (snd ?run)"
    by auto
  with out li ol de su show ?thesis
    by simp
qed

end
